theory Spec2Isabelle
  imports Complex_Main "HOL-Library.Word"
begin

section \<open>JavaScript values used by the automation scripts\<close>

text \<open>
  A JavaScript string is a sequence of UTF-16 code units: \<open>s.length\<close> counts code units and
  \<open>s.substring(a, b)\<close> cuts at code-unit positions. \<open>js\<close> embeds an ASCII literal.
\<close>

type_synonym jschar = "16 word"
type_synonym jsstring = "jschar list"

definition js :: "string \<Rightarrow> jsstring" where
  "js s = map (\<lambda>c. of_nat (of_char c)) s"

text \<open>Exceptions are values. \<open>PageError\<close> is anything the browser automation surface raises
  (timeouts, detached nodes, navigation failures); the other constructors are the
  \<open>throw new Error(...)\<close> statements of the scripts.\<close>

datatype error =
    PageError jsstring
  | ComposeAreaNotFound
  | ClickFailed
  | InvalidResponse
  | TransportError jsstring
  | NoTrendingTopics
  | NoPostContent
  | LoginFailed
  | TypeError

section \<open>Content log and the two loggers\<close>

text \<open>\<open>contentLogSchema\<close>, \<open>errorLogSchema\<close> and the row handed to \<open>appendToCSV\<close>. Entries are
  written by the two loggers below only, so \<open>generatedPost\<close> is always a string; times are
  milliseconds since the epoch.\<close>

record contentLog =
  trendingTopic :: jsstring
  trendContext :: jsstring
  loggedTweetCount :: jsstring
  generatedPost :: jsstring
  postedAt :: int
  postLength :: nat
  success :: bool
  retryCount :: nat

record errorLog =
  errorType :: jsstring
  errorCause :: error

record csvData =
  csvPostContent :: jsstring
  csvSuccess :: bool
  csvRetryCount :: nat
  csvMethod :: jsstring

record store =
  contentLogs :: "contentLog list"
  errorLogs :: "errorLog list"
  csvRows :: "csvData list"

text \<open>A trend candidate \<open>{ topic, context, tweetCount }\<close> and the value produced by the
  generator, \<open>{ post, topic, context, tweetCount }\<close>: the selected trend plus the post text.\<close>

record trend =
  topic :: jsstring
  context' :: jsstring
  tweetCount :: jsstring

record generated = trend +
  post :: jsstring

definition maxRetries_config :: nat where
  "maxRetries_config = 3"

text \<open>
  \<open>logSuccessfulPost\<close> and \<open>logFailedPost\<close> wrap their whole body in \<open>try/catch\<close>: when the
  database is unreachable (\<open>dbUp = False\<close>) the first \<open>create\<close> raises, the error is swallowed
  and nothing is written, the CSV row included. \<open>now\<close> is the clock read by the schema default
  of \<open>postedAt\<close>.
\<close>

definition logSuccessfulPost ::
  "bool \<Rightarrow> int \<Rightarrow> generated \<Rightarrow> nat \<Rightarrow> jsstring \<Rightarrow> store \<Rightarrow> store" where
  "logSuccessfulPost dbUp now pd attempt method st =
     (if dbUp then
        st\<lparr>contentLogs := contentLogs st @
              [\<lparr>trendingTopic = topic pd, trendContext = context' pd, loggedTweetCount = tweetCount pd,
                generatedPost = post pd, postedAt = now, postLength = length (post pd),
                success = True, retryCount = attempt\<rparr>],
           csvRows := csvRows st @
              [\<lparr>csvPostContent = post pd, csvSuccess = True, csvRetryCount = attempt,
                csvMethod = method\<rparr>]\<rparr>
      else st)"

definition logFailedPost ::
  "bool \<Rightarrow> int \<Rightarrow> generated \<Rightarrow> error \<Rightarrow> store \<Rightarrow> store" where
  "logFailedPost dbUp now pd err st =
     (if dbUp then
        st\<lparr>contentLogs := contentLogs st @
              [\<lparr>trendingTopic = topic pd, trendContext = context' pd, loggedTweetCount = tweetCount pd,
                generatedPost = post pd, postedAt = now, postLength = length (post pd),
                success = False, retryCount = maxRetries_config\<rparr>],
           errorLogs := errorLogs st @ [\<lparr>errorType = js ''POST_FAILED'', errorCause = err\<rparr>],
           csvRows := csvRows st @
              [\<lparr>csvPostContent = post pd, csvSuccess = False, csvRetryCount = maxRetries_config,
                csvMethod = js ''failed''\<rparr>]\<rparr>
      else st)"

section \<open>Retry orchestrator: \<open>postTweetWithRetry\<close>\<close>

text \<open>
  One \<open>await postTweetWithButton(page, postData.post)\<close> either resolves to a boolean or rejects.
  The environment fixes the outcome of the submit operation at each attempt number.
\<close>

datatype outcome = Returns bool | Throws error

record retry_env =
  submit :: "nat \<Rightarrow> outcome"
  storeUp :: bool
  clock :: int

text \<open>What the orchestrator did: the attempt numbers at which the submit operation was invoked,
  the \<open>humanDelay(min, max)\<close> waits, and the store.\<close>

record retry_state =
  invoked :: "nat list"
  delays :: "(nat \<times> nat) list"
  db :: store

definition initial_store :: store where
  "initial_store = \<lparr>contentLogs = [], errorLogs = [], csvRows = []\<rparr>"

definition initial_retry_state :: retry_state where
  "initial_retry_state = \<lparr>invoked = [], delays = [], db = initial_store\<rparr>"

text \<open>The \<open>for (let attempt = 1; attempt <= maxRetries; attempt++)\<close> loop, entered at \<open>attempt\<close>.\<close>

function postTweetWithRetry_from ::
  "retry_env \<Rightarrow> generated \<Rightarrow> nat \<Rightarrow> nat \<Rightarrow> retry_state \<Rightarrow> bool \<times> retry_state" where
  "postTweetWithRetry_from env pd maxRetries attempt s =
     (if attempt \<le> maxRetries then
        (let s1 = s\<lparr>invoked := invoked s @ [attempt]\<rparr> in
         case submit env attempt of
           Returns ok \<Rightarrow>
             if ok then
               (True, s1\<lparr>db := logSuccessfulPost (storeUp env) (clock env) pd attempt
                                 (js ''native_click_forced'') (db s1)\<rparr>)
             else
               postTweetWithRetry_from env pd maxRetries (attempt + 1)
                 (if attempt < maxRetries
                  then s1\<lparr>delays := delays s1 @ [(5000, 10000)]\<rparr> else s1)
         | Throws err \<Rightarrow>
             if attempt = maxRetries then
               (False, s1\<lparr>db := logFailedPost (storeUp env) (clock env) pd err (db s1)\<rparr>)
             else
               postTweetWithRetry_from env pd maxRetries (attempt + 1)
                 (s1\<lparr>delays := delays s1 @ [(3000, 6000)]\<rparr>))
      else (False, s))"
  by pat_completeness auto
termination
  by (relation "measure (\<lambda>(env, pd, maxRetries, attempt, s). maxRetries + 1 - attempt)") auto

definition postTweetWithRetry ::
  "retry_env \<Rightarrow> generated \<Rightarrow> nat \<Rightarrow> bool \<times> retry_state" where
  "postTweetWithRetry env pd maxRetries =
     postTweetWithRetry_from env pd maxRetries 1 initial_retry_state"

section \<open>Content generator\<close>

text \<open>\<open>String.prototype.trim\<close> removes leading and trailing WhiteSpace and LineTerminator
  code units.\<close>

definition isWhiteSpace :: "jschar \<Rightarrow> bool" where
  "isWhiteSpace c \<longleftrightarrow>
     c \<in> {0x09, 0x0A, 0x0B, 0x0C, 0x0D, 0x20, 0xA0, 0x1680, 0x2028, 0x2029, 0x202F, 0x205F,
          0x3000, 0xFEFF} \<or> (0x2000 \<le> c \<and> c \<le> 0x200A)"

definition trim :: "jsstring \<Rightarrow> jsstring" where
  "trim s = rev (dropWhile isWhiteSpace (rev (dropWhile isWhiteSpace s)))"

definition isQuote :: "jschar \<Rightarrow> bool" where
  "isQuote c \<longleftrightarrow> c = 0x22 \<or> c = 0x27"

text \<open>\<open>content.replace(/^["']|["']$/g, '')\<close>: one quote character is removed at the start, and
  one at the end of what is left.\<close>

definition stripQuotes :: "jsstring \<Rightarrow> jsstring" where
  "stripQuotes s =
     (let s1 = (case s of [] \<Rightarrow> [] | c # cs \<Rightarrow> if isQuote c then cs else s)
      in if s1 \<noteq> [] \<and> isQuote (last s1) then butlast s1 else s1)"

text \<open>\<open>content.length > 280 ? content.substring(0, 277) + '...' : content\<close>\<close>

definition truncateToLimit :: "jsstring \<Rightarrow> jsstring" where
  "truncateToLimit content =
     (if length content > 280 then take 277 content @ js ''...'' else content)"

text \<open>
  The answer of the text-generation service as the scripts inspect it: the request rejects
  (transport error, timeout, HTTP error status); the payload has no \<open>choices[0]\<close>; or there is a
  first choice, whose \<open>message.content\<close> is a string or is missing (then \<open>.trim()\<close> raises a
  TypeError inside the \<open>try\<close>).
\<close>

datatype api_response = RequestFailed error | NoChoices | Choice "jsstring option"

definition generatePostWithOpenRouter :: "api_response \<Rightarrow> trend \<Rightarrow> generated option" where
  "generatePostWithOpenRouter response selectedTrend =
     (case response of
        RequestFailed e \<Rightarrow> None
      | NoChoices \<Rightarrow> None
      | Choice None \<Rightarrow> None
      | Choice (Some raw) \<Rightarrow>
          Some \<lparr>topic = topic selectedTrend, context' = context' selectedTrend,
                tweetCount = tweetCount selectedTrend,
                post = truncateToLimit (stripQuotes (trim raw))\<rparr>)"

text \<open>\<open>generateAIComment\<close> of the engagement script: no quote stripping, and two early exits
  (no API key; post text shorter than 10 code units).\<close>

definition generateAIComment :: "bool \<Rightarrow> jsstring \<Rightarrow> api_response \<Rightarrow> jsstring option" where
  "generateAIComment apiKeyConfigured postText response =
     (if \<not> apiKeyConfigured then None
      else if postText = [] \<or> length postText < 10 then None
      else case response of
             RequestFailed e \<Rightarrow> None
           | NoChoices \<Rightarrow> None
           | Choice None \<Rightarrow> None
           | Choice (Some raw) \<Rightarrow> Some (truncateToLimit (trim raw)))"

section \<open>Diversity guard: \<open>checkContentDiversity\<close>\<close>

text \<open>
  \<open>String.prototype.toLowerCase\<close> and \<open>compareTwoStrings\<close> of the package \<open>string-similarity\<close>
  are not code of the scripts; they are parameters of the model.
\<close>

record jslib =
  toLowerCase :: "jsstring \<Rightarrow> jsstring"
  compareTwoStrings :: "jsstring \<Rightarrow> jsstring \<Rightarrow> real"

definition similarityThreshold :: real where
  "similarityThreshold = 7 / 10"

text \<open>\<open>ContentLog.find({ postedAt: { $gte: now - 24h }, success: true }).limit(20)\<close> over the
  collection in stored order; times are milliseconds.\<close>

definition recentPosts :: "int \<Rightarrow> contentLog list \<Rightarrow> contentLog list" where
  "recentPosts now logs =
     take 20 (filter (\<lambda>e. now - 24 * 60 * 60 * 1000 \<le> postedAt e \<and> success e) logs)"

text \<open>The \<open>for (const post of recentPosts)\<close> loop with its early \<open>return false\<close>.\<close>

fun compareWithRecent :: "jslib \<Rightarrow> contentLog list \<Rightarrow> jsstring \<Rightarrow> bool" where
  "compareWithRecent lib [] newPost = True"
| "compareWithRecent lib (p # ps) newPost =
     (if compareTwoStrings lib (toLowerCase lib (generatedPost p)) (toLowerCase lib newPost)
           > similarityThreshold
      then False
      else compareWithRecent lib ps newPost)"

text \<open>\<open>history\<close> is the answer of the store: \<open>Inl\<close> when the query raises.\<close>

definition checkContentDiversity ::
  "jslib \<Rightarrow> int \<Rightarrow> error + contentLog list \<Rightarrow> jsstring \<Rightarrow> bool" where
  "checkContentDiversity lib now history newPost =
     (case history of
        Inl e \<Rightarrow> True
      | Inr logs \<Rightarrow>
          (let recent = recentPosts now logs
           in if length recent = 0 then True else compareWithRecent lib recent newPost))"

section \<open>Trend discovery: \<open>getTrendingTopicsWithContext\<close>\<close>

fun startsWith :: "jsstring \<Rightarrow> jsstring \<Rightarrow> bool" where
  "startsWith s [] = True"
| "startsWith [] (p # ps) = False"
| "startsWith (c # cs) (p # ps) = (c = p \<and> startsWith cs ps)"

fun includes' :: "jsstring \<Rightarrow> jsstring \<Rightarrow> bool" where
  "includes' [] sub = (sub = [])"
| "includes' (c # cs) sub = (startsWith (c # cs) sub \<or> includes' cs sub)"

text \<open>The three variables assigned inside \<open>spans.forEach\<close>.\<close>

record trend_vars =
  trendText :: jsstring
  contextText :: jsstring
  tweetCountText :: jsstring

definition classifySpan :: "trend_vars \<Rightarrow> jsstring \<Rightarrow> trend_vars" where
  "classifySpan v textContent =
     (let text = trim textContent in
      if includes' text (js ''Trending'') \<or> includes' text [0xB7] then v\<lparr>contextText := text\<rparr>
      else if includes' text (js ''posts'') \<or> includes' text (js ''Tweets'')
              \<or> includes' text (js ''K'') \<or> includes' text (js ''M'')
      then v\<lparr>tweetCountText := text\<rparr>
      else if trendText v = [] \<and> length text > 2 \<and> \<not> startsWith text (js ''#'')
      then v\<lparr>trendText := text\<rparr>
      else if trendText v \<noteq> [] \<and> startsWith text (js ''#'') then v\<lparr>trendText := text\<rparr>
      else v)"

text \<open>One \<open>[data-testid="trend"]\<close> element, given as the text contents of its spans.\<close>

definition parseTrend :: "jsstring list \<Rightarrow> trend option" where
  "parseTrend spans =
     (let v = foldl classifySpan \<lparr>trendText = [], contextText = [], tweetCountText = []\<rparr> spans
      in if trendText v \<noteq> [] \<and> length (trendText v) > 2
         then Some \<lparr>topic = trendText v,
                    context' = (if contextText v = [] then js ''Trending now'' else contextText v),
                    tweetCount = (if tweetCountText v = [] then js ''N/A'' else tweetCountText v)\<rparr>
         else None)"

text \<open>\<open>topics.forEach(t => { if (!seenTopics.has(...)) { seenTopics.add(...); uniqueTopics.push(t) } })\<close>
  on the pair (\<open>uniqueTopics\<close>, \<open>seenTopics\<close>).\<close>

definition keepUnseen ::
  "jslib \<Rightarrow> trend list \<times> jsstring set \<Rightarrow> trend \<Rightarrow> trend list \<times> jsstring set" where
  "keepUnseen lib acc t =
     (case acc of (uniqueTopics, seenTopics) \<Rightarrow>
        if toLowerCase lib (topic t) \<notin> seenTopics
        then (uniqueTopics @ [t], insert (toLowerCase lib (topic t)) seenTopics)
        else (uniqueTopics, seenTopics))"

definition uniqueTopics :: "jslib \<Rightarrow> trend list \<Rightarrow> trend list" where
  "uniqueTopics lib topics = fst (foldl (keepUnseen lib) ([], {}) topics)"

text \<open>The page as this function meets it: the navigation, the three scroll scripts and the
  extraction script may each raise; the extraction sees the rendered trend elements.\<close>

record trends_page =
  gotoTrending :: "error + unit"
  scrollBy :: "nat \<Rightarrow> error + unit"
  trendElements :: "error + jsstring list list"

definition getTrendingTopicsWithContext :: "jslib \<Rightarrow> trends_page \<Rightarrow> trend list" where
  "getTrendingTopicsWithContext lib page =
     (case gotoTrending page of
        Inl e \<Rightarrow> []
      | Inr _ \<Rightarrow>
          if \<exists>i \<in> {0, 1, 2}. isl (scrollBy page i) then []
          else case trendElements page of
                 Inl e \<Rightarrow> []
               | Inr elements \<Rightarrow>
                   take 15 (uniqueTopics lib (List.map_filter parseTrend elements)))"

section \<open>Session cookies: \<open>applySessionCookies\<close> and \<open>extractAndSaveSession\<close>\<close>

text \<open>A cookie as the browser or the stored session hands it over: any field may be missing
  (\<open>None\<close> is \<open>undefined\<close>). \<open>expires\<close> is a JavaScript number, \<open>-1\<close> for a session cookie.\<close>

record cookie =
  name :: "jsstring option"
  value' :: "jsstring option"
  domain :: "jsstring option"
  path :: "jsstring option"
  httpOnly :: "bool option"
  secure :: "bool option"
  sameSite :: "jsstring option"
  expires :: "real option"

text \<open>The object built by the \<open>.map\<close> callback: \<open>name\<close>, \<open>value\<close> and \<open>domain\<close> are copied as
  they are, the other fields go through \<open>||\<close>, and \<open>expires\<close> is present or absent.\<close>

record cleaned =
  cleaned_name :: "jsstring option"
  cleaned_value :: "jsstring option"
  cleaned_domain :: "jsstring option"
  cleaned_path :: jsstring
  cleaned_httpOnly :: bool
  cleaned_secure :: bool
  cleaned_sameSite :: jsstring
  cleaned_expires :: "real option"

text \<open>Truthiness of a possibly missing string, and \<open>a || b\<close> on strings and on booleans.\<close>

definition truthy :: "jsstring option \<Rightarrow> bool" where
  "truthy v = (case v of None \<Rightarrow> False | Some s \<Rightarrow> s \<noteq> [])"

definition orString :: "jsstring option \<Rightarrow> jsstring \<Rightarrow> jsstring" where
  "orString v d = (case v of None \<Rightarrow> d | Some s \<Rightarrow> if s = [] then d else s)"

definition orFalse :: "bool option \<Rightarrow> bool" where
  "orFalse v = (case v of None \<Rightarrow> False | Some b \<Rightarrow> b)"

definition keepCookie :: "cookie \<Rightarrow> bool" where
  "keepCookie c \<longleftrightarrow> truthy (name c) \<and> truthy (value' c) \<and> truthy (domain c)"

definition cleanCookie :: "cookie \<Rightarrow> cleaned" where
  "cleanCookie c =
     \<lparr>cleaned_name = name c,
      cleaned_value = value' c,
      cleaned_domain = domain c,
      cleaned_path = orString (path c) (js ''/''),
      cleaned_httpOnly = orFalse (httpOnly c),
      cleaned_secure = orFalse (secure c),
      cleaned_sameSite = orString (sameSite c) (js ''Lax''),
      cleaned_expires = (case expires c of None \<Rightarrow> None
                         | Some e \<Rightarrow> if e \<noteq> 0 \<and> e > 0 then Some e else None)\<rparr>"

definition cleanCookies :: "cookie list \<Rightarrow> cleaned list" where
  "cleanCookies rawCookies = map cleanCookie (filter keepCookie rawCookies)"

type_synonym storage = "(jsstring \<times> jsstring) list"

record sessionData =
  cookies :: "cookie list"
  localStorage :: storage
  sessionStorage :: storage

record session_page =
  gotoTwitter :: "error + unit"
  setCookie :: "error + unit"
  writeLocalStorage :: "error + unit"
  writeSessionStorage :: "error + unit"

text \<open>\<open>applySessionCookies\<close> of the posting scripts. The result is the returned boolean and the
  arguments of the \<open>page.setCookie\<close> call (\<open>[]\<close> when the call is not made).\<close>

definition applySessionCookies :: "session_page \<Rightarrow> sessionData \<Rightarrow> bool \<times> cleaned list" where
  "applySessionCookies page sd =
     (case gotoTwitter page of
        Inl e \<Rightarrow> (False, [])
      | Inr _ \<Rightarrow>
          (let cleanCookies = cleanCookies (cookies sd) in
           if length cleanCookies > 0 \<and> isl (setCookie page) then (False, cleanCookies)
           else if localStorage sd \<noteq> [] \<and> isl (writeLocalStorage page) then (False, cleanCookies)
           else (True, cleanCookies)))"

text \<open>\<open>applySessionCookies\<close> of the engagement script: it gives up when no cookie is left, and
  restores \<open>sessionStorage\<close> too.\<close>

definition applySessionCookies_engagement ::
  "session_page \<Rightarrow> sessionData \<Rightarrow> bool \<times> cleaned list" where
  "applySessionCookies_engagement page sd =
     (case gotoTwitter page of
        Inl e \<Rightarrow> (False, [])
      | Inr _ \<Rightarrow>
          (let cleanCookies = cleanCookies (cookies sd) in
           if length cleanCookies > 0 then
             (if isl (setCookie page) then (False, cleanCookies)
              else if localStorage sd \<noteq> [] \<and> isl (writeLocalStorage page) then (False, cleanCookies)
              else if sessionStorage sd \<noteq> [] \<and> isl (writeSessionStorage page)
              then (False, cleanCookies)
              else (True, cleanCookies))
           else (False, [])))"

text \<open>The \<open>Session\<close> collection, one document per account e-mail.\<close>

record savedSession =
  savedCookies :: "cleaned list"
  savedLocalStorage :: storage
  savedSessionStorage :: storage
  updatedAt :: int

type_synonym sessions = "jsstring \<rightharpoonup> savedSession"

definition saveSessionToDB ::
  "bool \<Rightarrow> int \<Rightarrow> jsstring \<Rightarrow> cleaned list \<Rightarrow> storage \<Rightarrow> storage \<Rightarrow> sessions \<Rightarrow> sessions" where
  "saveSessionToDB up time email cs ls ss sessionsDB =
     (if up
      then sessionsDB(email \<mapsto> \<lparr>savedCookies = cs, savedLocalStorage = ls,
                                 savedSessionStorage = ss, updatedAt = time\<rparr>)
      else sessionsDB)"

record extract_page =
  pageCookies :: "error + cookie list"
  readLocalStorage :: "error + storage"
  readSessionStorage :: "error + storage"

definition extractAndSaveSession ::
  "extract_page \<Rightarrow> bool \<Rightarrow> int \<Rightarrow> jsstring \<Rightarrow> sessions \<Rightarrow> sessions" where
  "extractAndSaveSession page up time email sessionsDB =
     (case pageCookies page of
        Inl e \<Rightarrow> sessionsDB
      | Inr rawCookies \<Rightarrow>
          (let cleanCookies = cleanCookies rawCookies in
           case readLocalStorage page of
             Inl e \<Rightarrow> sessionsDB
           | Inr ls \<Rightarrow>
               (case readSessionStorage page of
                  Inl e \<Rightarrow> sessionsDB
                | Inr ss \<Rightarrow> saveSessionToDB up time email cleanCookies ls ss sessionsDB)))"

section \<open>Interaction executor: \<open>postTweetWithButton\<close>\<close>

text \<open>
  The page as \<open>postTweetWithButton\<close> and \<open>verifyTweetPosted\<close> meet it: each awaited call
  either resolves or raises. \<open>waitForTextarea i\<close> is \<open>page.waitForSelector\<close> on the \<open>i\<close>-th
  entry of \<open>textareaSelectors\<close>, resolving to a handle (\<open>True\<close>) or to \<open>null\<close>;
  \<open>queryButton\<close> is \<open>page.$(postButtonSelector)\<close>; \<open>composeContent\<close> is the text of the compose
  box after the click (\<open>None\<close>: the box is gone); \<open>timelineTweets\<close> are the texts of the tweets
  on the home timeline. \<open>humanDelay\<close> and \<open>randomMouseMovement\<close> cannot raise and leave no
  mark.
\<close>

record box =
  box_x :: real
  box_y :: real
  box_width :: real
  box_height :: real

record post_page =
  gotoHome :: "error + unit"
  waitForTextarea :: "nat \<Rightarrow> error + bool"
  clearTextarea :: "error + unit"
  clickTextarea :: "error + unit"
  typeChar :: "nat \<Rightarrow> error + unit"
  waitForPostButton :: "error + unit"
  enableButton :: "error + unit"
  scrollIntoView :: "error + unit"
  nativeClick :: "error + unit"
  evaluateClick :: "error + unit"
  queryButton :: "error + bool"
  boundingBox :: "error + box option"
  mouseClick :: "real \<Rightarrow> real \<Rightarrow> error + unit"
  composeContent :: "error + jsstring option"
  gotoTimeline :: "error + unit"
  timelineTweets :: "error + jsstring list"
  screenshot :: "error + unit"

text \<open>The calls made on the page, in order.\<close>

datatype page_call =
    Goto
  | WaitForSelector nat
  | ClearTextarea
  | ClickTextarea
  | TypeChar nat
  | WaitForPostButton
  | EnableButton
  | ScrollIntoView
  | NativeClick
  | EvaluateClick
  | QueryButton
  | BoundingBox
  | MouseClick real real
  | ReadComposeBox
  | GotoTimeline
  | ReadTimeline
  | Screenshot

type_synonym 'a step = "(error + 'a) \<times> page_call list"

definition perform :: "page_call \<Rightarrow> error + 'a \<Rightarrow> 'a step" where
  "perform c r = (r, [c])"

text \<open>Sequencing inside a \<open>try\<close> block: a raise skips what follows.\<close>

definition andThen :: "'a step \<Rightarrow> ('a \<Rightarrow> 'b step) \<Rightarrow> 'b step" where
  "andThen m f =
     (case m of
        (Inl e, t) \<Rightarrow> (Inl e, t)
      | (Inr a, t) \<Rightarrow> (case f a of (r, t') \<Rightarrow> (r, t @ t')))"

definition verifyTweetPosted :: "post_page \<Rightarrow> jsstring \<Rightarrow> bool \<times> page_call list" where
  "verifyTweetPosted page tweetContent =
     (case composeContent page of
        Inl e \<Rightarrow> (False, [ReadComposeBox])
      | Inr textarea \<Rightarrow>
          if (case textarea of None \<Rightarrow> True | Some content \<Rightarrow> trim content = [])
          then (True, [ReadComposeBox])
          else (case gotoTimeline page of
                  Inl e \<Rightarrow> (False, [ReadComposeBox, GotoTimeline])
                | Inr _ \<Rightarrow>
                    (case timelineTweets page of
                       Inl e \<Rightarrow> (False, [ReadComposeBox, GotoTimeline, ReadTimeline])
                     | Inr tweets \<Rightarrow>
                         (\<exists>tweet \<in> set tweets. includes' tweet (take 50 tweetContent),
                          [ReadComposeBox, GotoTimeline, ReadTimeline]))))"

text \<open>The \<open>for (const selector of textareaSelectors)\<close> loop: \<open>True\<close> when \<open>textarea\<close> ends
  non-null.\<close>

fun findTextarea :: "post_page \<Rightarrow> nat list \<Rightarrow> bool \<times> page_call list" where
  "findTextarea page [] = (False, [])"
| "findTextarea page (i # rest) =
     (case waitForTextarea page i of
        Inr True \<Rightarrow> (True, [WaitForSelector i])
      | Inr False \<Rightarrow>
          (case findTextarea page rest of (found, t) \<Rightarrow> (found, WaitForSelector i # t))
      | Inl e \<Rightarrow>
          (case findTextarea page rest of (found, t) \<Rightarrow> (found, WaitForSelector i # t)))"

text \<open>The \<open>for (const char of tweetContent)\<close> loop runs once per code point: a surrogate pair
  is one character.\<close>

fun countCodePoints :: "jsstring \<Rightarrow> nat" where
  "countCodePoints [] = 0"
| "countCodePoints [c] = 1"
| "countCodePoints (c # d # cs) =
     (if 0xD800 \<le> c \<and> c \<le> 0xDBFF \<and> 0xDC00 \<le> d \<and> d \<le> 0xDFFF
      then 1 + countCodePoints cs
      else 1 + countCodePoints (d # cs))"

fun typeText :: "post_page \<Rightarrow> nat list \<Rightarrow> unit step" where
  "typeText page [] = (Inr (), [])"
| "typeText page (i # rest) = andThen (perform (TypeChar i) (typeChar page i)) (\<lambda>_. typeText page rest)"

text \<open>The three \<open>try\<close> blocks around the click: each returns the new value of \<open>clicked\<close>.\<close>

definition tryNativeClick :: "post_page \<Rightarrow> bool \<times> page_call list" where
  "tryNativeClick page =
     (case nativeClick page of Inr _ \<Rightarrow> (True, [NativeClick]) | Inl e \<Rightarrow> (False, [NativeClick]))"

definition tryEvaluateClick :: "post_page \<Rightarrow> bool \<times> page_call list" where
  "tryEvaluateClick page =
     (case evaluateClick page of
        Inr _ \<Rightarrow> (True, [EvaluateClick])
      | Inl e \<Rightarrow> (False, [EvaluateClick]))"

definition tryCoordinateClick :: "post_page \<Rightarrow> bool \<times> page_call list" where
  "tryCoordinateClick page =
     (case queryButton page of
        Inl e \<Rightarrow> (False, [QueryButton])
      | Inr buttonElement \<Rightarrow>
          if buttonElement then
            (case boundingBox page of
               Inl e \<Rightarrow> (False, [QueryButton, BoundingBox])
             | Inr None \<Rightarrow> (False, [QueryButton, BoundingBox])
             | Inr (Some b) \<Rightarrow>
                 (let x = box_x b + box_width b / 2;
                      y = box_y b + box_height b / 2
                  in case mouseClick page x y of
                       Inl e \<Rightarrow> (False, [QueryButton, BoundingBox, MouseClick x y])
                     | Inr _ \<Rightarrow> (True, [QueryButton, BoundingBox, MouseClick x y])))
          else (False, [QueryButton]))"

definition clickPostButton :: "post_page \<Rightarrow> bool \<times> page_call list" where
  "clickPostButton page =
     (case tryNativeClick page of (clicked1, t1) \<Rightarrow>
      case (if \<not> clicked1 then tryEvaluateClick page else (clicked1, [])) of (clicked2, t2) \<Rightarrow>
      case (if \<not> clicked2 then tryCoordinateClick page else (clicked2, [])) of (clicked3, t3) \<Rightarrow>
        (clicked3, t1 @ t2 @ t3))"

text \<open>Everything of the \<open>try\<close> body before \<open>let clicked = false\<close>.\<close>

definition composeAndLocateButton :: "post_page \<Rightarrow> jsstring \<Rightarrow> unit step" where
  "composeAndLocateButton page tweetContent =
     andThen (perform Goto (gotoHome page)) (\<lambda>_.
     andThen (case findTextarea page [0, 1, 2, 3] of
                (found, t) \<Rightarrow> (if found then Inr () else Inl ComposeAreaNotFound, t)) (\<lambda>_.
     andThen (perform ClearTextarea (clearTextarea page)) (\<lambda>_.
     andThen (perform ClickTextarea (clickTextarea page)) (\<lambda>_.
     andThen (typeText page [0..<countCodePoints tweetContent]) (\<lambda>_.
     andThen (perform WaitForPostButton (waitForPostButton page)) (\<lambda>_.
     andThen (perform EnableButton (enableButton page)) (\<lambda>_.
     perform ScrollIntoView (scrollIntoView page))))))))"

text \<open>The \<open>try\<close> body: both branches of \<open>if (verified)\<close> return \<open>true\<close>.\<close>

definition postTweetWithButton_try :: "post_page \<Rightarrow> jsstring \<Rightarrow> bool step" where
  "postTweetWithButton_try page tweetContent =
     andThen (composeAndLocateButton page tweetContent) (\<lambda>_.
     andThen (case clickPostButton page of
                (clicked, t) \<Rightarrow> (if \<not> clicked then Inl ClickFailed else Inr (), t)) (\<lambda>_.
     (case verifyTweetPosted page tweetContent of
        (verified, t) \<Rightarrow> (if verified then Inr True else Inr True, t))))"

text \<open>The \<open>catch\<close>: a screenshot whose own failure is swallowed, then \<open>return false\<close>.\<close>

definition postTweetWithButton :: "post_page \<Rightarrow> jsstring \<Rightarrow> bool \<times> page_call list" where
  "postTweetWithButton page tweetContent =
     (case postTweetWithButton_try page tweetContent of
        (Inr result, t) \<Rightarrow> (result, t)
      | (Inl e, t) \<Rightarrow> (False, t @ [Screenshot]))"

text \<open>The click strategies among the calls: each strategy opens with its own call.\<close>

datatype strategy = NativeElementClick | ScriptInjectedClick | CoordinateMouseClick

fun strategyOf :: "page_call \<Rightarrow> strategy option" where
  "strategyOf NativeClick = Some NativeElementClick"
| "strategyOf EvaluateClick = Some ScriptInjectedClick"
| "strategyOf QueryButton = Some CoordinateMouseClick"
| "strategyOf _ = None"

definition strategiesTried :: "page_call list \<Rightarrow> strategy list" where
  "strategiesTried t = List.map_filter strategyOf t"

section \<open>Run controller, single-cycle mode: \<open>main\<close>\<close>

text \<open>\<open>Math.floor(Math.random() * n)\<close> with the draw \<open>r\<close> given; \<open>xs[i]\<close> is \<open>undefined\<close>
  (\<open>None\<close>) outside the list.\<close>

definition randomElement :: "real \<Rightarrow> 'a list \<Rightarrow> 'a option" where
  "randomElement r xs =
     (let randomIndex = \<lfloor>r * real (length xs)\<rfloor>
      in if 0 \<le> randomIndex \<and> randomIndex < int (length xs)
         then Some (xs ! nat randomIndex) else None)"

definition selectRandomTrend :: "jslib \<Rightarrow> real \<Rightarrow> trend list \<Rightarrow> jsstring list \<Rightarrow> trend option" where
  "selectRandomTrend lib r trends usedTopics =
     (let availableTrends =
            filter (\<lambda>t. toLowerCase lib (topic t) \<notin> set usedTopics) trends
      in if length availableTrends = 0 then randomElement r trends
         else randomElement r availableTrends)"

text \<open>
  What one run meets. \<open>setupSteps\<close> stands for steps 1 to 3 (browser launch, authentication,
  feed scrolling), which either complete or throw; step 6 (\<open>sampleTrendingTweets\<close>) never
  throws and only feeds the prompt, so it leaves no mark here; \<open>random i\<close> is the \<open>i\<close>-th draw of
  \<open>Math.random\<close> in \<open>selectRandomTrend\<close>; \<open>responses i\<close> answers the \<open>i\<close>-th generation request;
  \<open>historyQuery\<close> answers the diversity query; \<open>postPages n\<close> is the page during posting attempt
  \<open>n\<close>.
\<close>

record main_env =
  setupSteps :: "error + unit"
  library :: jslib
  trendsPage :: trends_page
  random :: "nat \<Rightarrow> real"
  responses :: "nat \<Rightarrow> api_response"
  historyQuery :: "error + contentLog list"
  postPages :: "nat \<Rightarrow> post_page"
  databaseUp :: bool
  currentTime :: int

datatype main_event =
    Generate trend "generated option"
  | DiversityCheck jsstring bool
  | Submit generated bool
  | CriticalError error

record main_result =
  events :: "main_event list"
  written :: store

text \<open>The \<open>catch\<close> of \<open>main\<close>: the error is recorded in \<open>ErrorLog\<close> when the store answers.\<close>

definition abortRun :: "main_env \<Rightarrow> main_event list \<Rightarrow> error \<Rightarrow> main_result" where
  "abortRun env done err =
     \<lparr>events = done @ [CriticalError err],
      written = (if databaseUp env
                 then initial_store\<lparr>errorLogs := [\<lparr>errorType = js ''CRITICAL_AUTOMATION_ERROR'',
                                                   errorCause = err\<rparr>]\<rparr>
                 else initial_store)\<rparr>"

text \<open>Step 9: the retry orchestrator over \<open>postTweetWithButton\<close>, with the default
  \<open>maxRetries\<close>.\<close>

definition submitWithRetry :: "main_env \<Rightarrow> main_event list \<Rightarrow> generated \<Rightarrow> main_result" where
  "submitWithRetry env done postData =
     (case postTweetWithRetry
             \<lparr>submit = (\<lambda>n. Returns (fst (postTweetWithButton (postPages env n) (post postData)))),
              storeUp = databaseUp env, clock = currentTime env\<rparr>
             postData maxRetries_config of
        (posted, s) \<Rightarrow> \<lparr>events = done @ [Submit postData posted], written = db s\<rparr>)"

definition main :: "main_env \<Rightarrow> main_result" where
  "main env =
     (case setupSteps env of
        Inl e \<Rightarrow> abortRun env [] e
      | Inr _ \<Rightarrow>
          (let trendingTopics = getTrendingTopicsWithContext (library env) (trendsPage env) in
           if length trendingTopics = 0 then abortRun env [] NoTrendingTopics
           else
             case selectRandomTrend (library env) (random env 0) trendingTopics [] of
               None \<Rightarrow> abortRun env [] TypeError
             | Some selectedTrend \<Rightarrow>
                 (let usedTopics = [toLowerCase (library env) (topic selectedTrend)];
                      postData = generatePostWithOpenRouter (responses env 0) selectedTrend;
                      ev1 = [Generate selectedTrend postData]
                  in case postData of
                       None \<Rightarrow> abortRun env ev1 NoPostContent
                     | Some pd \<Rightarrow>
                         (let isDiverse =
                                checkContentDiversity (library env) (currentTime env) (historyQuery env) (post pd);
                              ev2 = ev1 @ [DiversityCheck (post pd) isDiverse]
                          in if \<not> isDiverse then
                               (case selectRandomTrend (library env) (random env 1) trendingTopics
                                       usedTopics of
                                  None \<Rightarrow> abortRun env ev2 TypeError
                                | Some newTrend \<Rightarrow>
                                    (let retryPostData =
                                           generatePostWithOpenRouter (responses env 1) newTrend;
                                         ev3 = ev2 @ [Generate newTrend retryPostData]
                                     in case retryPostData of
                                          Some r \<Rightarrow> submitWithRetry env ev3 r
                                        | None \<Rightarrow> submitWithRetry env ev3 pd))
                             else submitWithRetry env ev2 pd))))"

section \<open>Run controller, continuous-engagement mode: \<open>scrollFeed\<close>\<close>

record like_result =
  liked :: nat
  likedPostLinks :: "jsstring list"

record comment_result =
  commented :: bool
  commentText :: jsstring
  commentPostLink :: jsstring

text \<open>
  What the loop meets at pass \<open>n\<close> (the value of \<open>scrollAttempts\<close> after its increment): the
  scroll script and the tweet count are awaited outside any \<open>try\<close>; the three helpers are
  called inside one. \<open>stopRequested n\<close> tells whether the hosting side has asked the run to stop
  by pass \<open>n\<close>; nothing in the script reads it.
\<close>

record feed_env =
  scrollPage :: "nat \<Rightarrow> error + unit"
  countTweets :: "nat \<Rightarrow> error + nat"
  likeRandomPosts :: "nat \<Rightarrow> error + like_result"
  commentOnRandomPost :: "nat \<Rightarrow> error + comment_result"
  checkAndReplyToNotifications :: "nat \<Rightarrow> error + nat"
  apiKey :: bool
  stopRequested :: "nat \<Rightarrow> bool"

record activity_row =
  scroll_count :: nat
  like_count :: nat
  post_link :: jsstring
  comment_post_link :: jsstring
  comment_text :: jsstring
  number_of_comments :: nat

record feed_state =
  scrollAttempts :: nat
  totalLiked :: nat
  totalCommented :: nat
  activityLog :: "activity_row list"

definition initial_feed_state :: feed_state where
  "initial_feed_state = \<lparr>scrollAttempts = 0, totalLiked = 0, totalCommented = 0, activityLog = []\<rparr>"

definition likeStep :: "feed_env \<Rightarrow> feed_state \<Rightarrow> feed_state" where
  "likeStep env s =
     (case likeRandomPosts env (scrollAttempts s) of
        Inl e \<Rightarrow> s
      | Inr result \<Rightarrow>
          if liked result > 0 then
            s\<lparr>totalLiked := totalLiked s + liked result,
              activityLog := activityLog s @
                map (\<lambda>postLink. \<lparr>scroll_count = scrollAttempts s, like_count = 1,
                                 post_link = postLink, comment_post_link = [], comment_text = [],
                                 number_of_comments = totalCommented s\<rparr>)
                    (likedPostLinks result)\<rparr>
          else s)"

definition commentStep :: "feed_env \<Rightarrow> feed_state \<Rightarrow> feed_state" where
  "commentStep env s =
     (if scrollAttempts s mod 20 = 0 \<and> apiKey env then
        (case commentOnRandomPost env (scrollAttempts s) of
           Inl e \<Rightarrow> s
         | Inr commentResult \<Rightarrow>
             if commented commentResult then
               s\<lparr>totalCommented := totalCommented s + 1,
                 activityLog := activityLog s @
                   [\<lparr>scroll_count = scrollAttempts s, like_count = 0, post_link = [],
                     comment_post_link = commentPostLink commentResult,
                     comment_text = commentText commentResult,
                     number_of_comments = totalCommented s + 1\<rparr>]\<rparr>
             else s)
      else s)"

text \<open>The notification check of every 50th pass: whatever it answers, no variable of the
  loop changes.\<close>

definition notificationStep :: "feed_env \<Rightarrow> feed_state \<Rightarrow> feed_state" where
  "notificationStep env s =
     (if scrollAttempts s mod 50 = 0 \<and> apiKey env then
        (case checkAndReplyToNotifications env (scrollAttempts s) of
           Inl e \<Rightarrow> s
         | Inr replied \<Rightarrow> s)
      else s)"

text \<open>One pass of the body of \<open>while (true)\<close>.\<close>

definition scrollFeed_pass :: "feed_env \<Rightarrow> feed_state \<Rightarrow> error + feed_state" where
  "scrollFeed_pass env s =
     (case scrollPage env (scrollAttempts s + 1) of
        Inl e \<Rightarrow> Inl e
      | Inr _ \<Rightarrow>
          (let s1 = s\<lparr>scrollAttempts := scrollAttempts s + 1\<rparr> in
           case countTweets env (scrollAttempts s1) of
             Inl e \<Rightarrow> Inl e
           | Inr currentTweetCount \<Rightarrow>
               Inr (notificationStep env (commentStep env (likeStep env s1)))))"

text \<open>\<open>while (true) { ... }\<close> has no \<open>break\<close> and no \<open>return\<close>: the function ends only by an
  exception of a pass, and \<open>None\<close> is the run that never ends.\<close>

partial_function (option) scrollFeed :: "feed_env \<Rightarrow> feed_state \<Rightarrow> (error \<times> feed_state) option" where
  "scrollFeed env s =
     (case scrollFeed_pass env s of
        Inl e \<Rightarrow> Some (e, s)
      | Inr s' \<Rightarrow> scrollFeed env s')"

text \<open>The first \<open>k\<close> passes, for looking at the loop after finitely many of them.\<close>

fun scrollFeed_passes :: "nat \<Rightarrow> feed_env \<Rightarrow> feed_state \<Rightarrow> error + feed_state" where
  "scrollFeed_passes 0 env s = Inr s"
| "scrollFeed_passes (Suc k) env s =
     (case scrollFeed_pass env s of
        Inl e \<Rightarrow> Inl e
      | Inr s' \<Rightarrow> scrollFeed_passes k env s')"

section \<open>Concrete runs\<close>

definition samplePost :: generated where
  "samplePost = \<lparr>topic = js ''Diwali'', context' = js ''Trending in India'',
                  tweetCount = js ''12K posts'', post = js ''Lights everywhere tonight''\<rparr>"

text \<open>Every posting attempt comes back \<open>false\<close>, as \<open>postTweetWithButton\<close> does after catching
  its own error; the store is reachable.\<close>

definition alwaysFalse_env :: retry_env where
  "alwaysFalse_env = \<lparr>submit = (\<lambda>_. Returns False), storeUp = True, clock = 0\<rparr>"

definition sampleTrend :: trend where
  "sampleTrend = \<lparr>topic = js ''Diwali'', context' = js ''Trending in India'',
                   tweetCount = js ''12K posts''\<rparr>"

text \<open>A model answer of 300 letters wrapped in quotes and blanks.\<close>

definition longRaw :: jsstring where
  "longRaw = js '' '' @ [0x22] @ replicate 300 0x61 @ [0x22] @ js '' ''"

text \<open>Stand-ins for the two library functions on concrete runs: ASCII lower-casing, and a
  similarity that is \<open>1\<close> on equal strings and \<open>0\<close> otherwise.\<close>

definition sampleLib :: jslib where
  "sampleLib = \<lparr>toLowerCase = map (\<lambda>c. if 0x41 \<le> c \<and> c \<le> 0x5A then c + 0x20 else c),
                 compareTwoStrings = (\<lambda>a b. if a = b then 1 else 0)\<rparr>"

definition loggedPost :: contentLog where
  "loggedPost = \<lparr>trendingTopic = js ''Diwali'', trendContext = js ''Trending in India'',
                  loggedTweetCount = js ''12K posts'',
                  generatedPost = js ''Lights everywhere tonight'',
                  postedAt = 1000, postLength = 25, success = True, retryCount = 1\<rparr>"

definition sessionCookie :: cookie where
  "sessionCookie = \<lparr>name = Some (js ''auth_token''), value' = Some (js ''abc''),
                     domain = Some (js ''.twitter.com''), path = None, httpOnly = None,
                     secure = Some True, sameSite = Some [], expires = Some (-1)\<rparr>"

definition namelessCookie :: cookie where
  "namelessCookie = \<lparr>name = Some [], value' = Some (js ''x''),
                      domain = Some (js ''.twitter.com''), path = Some (js ''/home''),
                      httpOnly = Some True, secure = None, sameSite = Some (js ''None''),
                      expires = Some 1700000000\<rparr>"

definition persistentCookie :: cookie where
  "persistentCookie = \<lparr>name = Some (js ''ct0''), value' = Some (js ''x''),
                        domain = Some (js ''.twitter.com''), path = Some (js ''/home''),
                        httpOnly = Some True, secure = None, sameSite = Some (js ''None''),
                        expires = Some 1700000000\<rparr>"

definition healthySessionPage :: session_page where
  "healthySessionPage = \<lparr>gotoTwitter = Inr (), setCookie = Inr (), writeLocalStorage = Inr (),
                          writeSessionStorage = Inr ()\<rparr>"

definition storedSession :: sessionData where
  "storedSession = \<lparr>cookies = [sessionCookie, namelessCookie, persistentCookie],
                     localStorage = [], sessionStorage = []\<rparr>"

definition healthyExtractPage :: extract_page where
  "healthyExtractPage = \<lparr>pageCookies = Inr [sessionCookie, namelessCookie, persistentCookie],
                          readLocalStorage = Inr [], readSessionStorage = Inr []\<rparr>"

text \<open>What the cookie claim says of a cookie \<open>c\<close> built from the source cookie \<open>r\<close>.\<close>

definition cleanedFrom :: "cookie \<Rightarrow> cleaned \<Rightarrow> bool" where
  "cleanedFrom r c \<longleftrightarrow>
     (case cleaned_name c of None \<Rightarrow> False | Some n \<Rightarrow> n \<noteq> [] \<and> name r = Some n) \<and>
     (case cleaned_value c of None \<Rightarrow> False | Some v \<Rightarrow> v \<noteq> [] \<and> value' r = Some v) \<and>
     (case cleaned_domain c of None \<Rightarrow> False | Some d \<Rightarrow> d \<noteq> [] \<and> domain r = Some d) \<and>
     cleaned_path c = (if path r = None \<or> path r = Some [] then js ''/'' else the (path r)) \<and>
     cleaned_httpOnly c = (if httpOnly r = None then False else the (httpOnly r)) \<and>
     cleaned_secure c = (if secure r = None then False else the (secure r)) \<and>
     cleaned_sameSite c = (if sameSite r = None \<or> sameSite r = Some [] then js ''Lax''
                           else the (sameSite r)) \<and>
     (case cleaned_expires c of
        None \<Rightarrow> (case expires r of None \<Rightarrow> True | Some e \<Rightarrow> \<not> e > 0)
      | Some e \<Rightarrow> expires r = Some e \<and> e > 0)"

text \<open>A page on which every call resolves; after the click the compose box still holds the
  text and the timeline does not show it, so verification fails.\<close>

definition healthyPage :: post_page where
  "healthyPage =
     \<lparr>gotoHome = Inr (), waitForTextarea = (\<lambda>i. Inr True), clearTextarea = Inr (),
      clickTextarea = Inr (), typeChar = (\<lambda>i. Inr ()), waitForPostButton = Inr (),
      enableButton = Inr (), scrollIntoView = Inr (), nativeClick = Inr (),
      evaluateClick = Inr (), queryButton = Inr True,
      boundingBox = Inr (Some \<lparr>box_x = 10, box_y = 20, box_width = 5, box_height = 3\<rparr>),
      mouseClick = (\<lambda>x y. Inr ()), composeContent = Inr (Some (js ''hi'')),
      gotoTimeline = Inr (), timelineTweets = Inr [js ''an older tweet''], screenshot = Inr ()\<rparr>"

definition nativeBlockedPage :: post_page where
  "nativeBlockedPage = healthyPage\<lparr>nativeClick := Inl (PageError (js ''blocked''))\<rparr>"

definition coordinateOnlyPage :: post_page where
  "coordinateOnlyPage = nativeBlockedPage\<lparr>evaluateClick := Inl (PageError (js ''blocked''))\<rparr>"

definition allBlockedPage :: post_page where
  "allBlockedPage = coordinateOnlyPage\<lparr>mouseClick := (\<lambda>x y. Inl (PageError (js ''blocked'')))\<rparr>"

text \<open>A rendered trending page: two blocks for the same topic in different case, one block
  with too short a topic, one more topic; and a page whose navigation fails.\<close>

definition renderedTrends :: trends_page where
  "renderedTrends =
     \<lparr>gotoTrending = Inr (), scrollBy = (\<lambda>i. Inr ()),
      trendElements = Inr [[js ''Trending in India'', js ''Diwali'', js ''12K posts''],
                           [js ''DIWALI''],
                           [js ''ab''],
                           [js ''Cricket'']]\<rparr>"

definition unreachableTrends :: trends_page where
  "unreachableTrends = renderedTrends\<lparr>gotoTrending := Inl (PageError (js ''timeout''))\<rparr>"

text \<open>A healthy page on which a stop of the run has been requested from the start, and the
  same page with the browser closed at the third pass.\<close>

definition stopRequestedEnv :: feed_env where
  "stopRequestedEnv =
     \<lparr>scrollPage = (\<lambda>n. Inr ()), countTweets = (\<lambda>n. Inr 10),
      likeRandomPosts = (\<lambda>n. Inr \<lparr>liked = 0, likedPostLinks = []\<rparr>),
      commentOnRandomPost = (\<lambda>n. Inl (PageError [])),
      checkAndReplyToNotifications = (\<lambda>n. Inr 0),
      apiKey = False, stopRequested = (\<lambda>n. True)\<rparr>"

definition closedBrowserEnv :: feed_env where
  "closedBrowserEnv = stopRequestedEnv\<lparr>scrollPage := (\<lambda>n. if n < 3 then Inr () else Inl (PageError (js ''closed'')))\<rparr>"

text \<open>Two single-cycle runs over the rendered trending page. In the first the generator
  answers \<open>"hi"\<close> in quotes, the history holds the same text, and the second generation request
  times out; in the second every generation request times out.\<close>

definition cricketTrend :: trend where
  "cricketTrend = \<lparr>topic = js ''Cricket'', context' = js ''Trending now'', tweetCount = js ''N/A''\<rparr>"

definition hiPost :: generated where
  "hiPost = \<lparr>topic = js ''Diwali'', context' = js ''Trending in India'',
              tweetCount = js ''12K posts'', post = js ''hi''\<rparr>"

definition loggedHi :: contentLog where
  "loggedHi = \<lparr>trendingTopic = js ''Diwali'', trendContext = js ''Trending in India'',
                loggedTweetCount = js ''12K posts'', generatedPost = js ''HI'',
                postedAt = 1000, postLength = 2, success = True, retryCount = 1\<rparr>"

definition quotedHi :: jsstring where
  "quotedHi = [0x22] @ js ''hi'' @ [0x22]"

definition rejectedRun :: main_env where
  "rejectedRun =
     \<lparr>setupSteps = Inr (), library = sampleLib, trendsPage = renderedTrends,
      random = (\<lambda>i. 0),
      responses = (\<lambda>i. if i = 0 then Choice (Some quotedHi)
                        else RequestFailed (TransportError (js ''timeout''))),
      historyQuery = Inr [loggedHi], postPages = (\<lambda>n. healthyPage),
      databaseUp = True, currentTime = 5000\<rparr>"

definition failedGenerationRun :: main_env where
  "failedGenerationRun =
     rejectedRun\<lparr>responses := (\<lambda>i. RequestFailed (TransportError (js ''timeout'')))\<rparr>"

section \<open>Properties of the retry orchestrator\<close>

declare postTweetWithRetry_from.simps [simp del]

lemma retry_exhausted:
  "\<not> attempt \<le> maxRetries \<Longrightarrow> postTweetWithRetry_from env pd maxRetries attempt s = (False, s)"
  by (subst postTweetWithRetry_from.simps) simp

lemma retry_success:
  "attempt \<le> maxRetries \<Longrightarrow> submit env attempt = Returns True \<Longrightarrow>
   postTweetWithRetry_from env pd maxRetries attempt s =
     (True, s\<lparr>invoked := invoked s @ [attempt],
              db := logSuccessfulPost (storeUp env) (clock env) pd attempt
                      (js ''native_click_forced'') (db s)\<rparr>)"
  by (subst postTweetWithRetry_from.simps) (simp add: Let_def)

lemma retry_false:
  "attempt \<le> maxRetries \<Longrightarrow> submit env attempt = Returns False \<Longrightarrow>
   postTweetWithRetry_from env pd maxRetries attempt s =
     postTweetWithRetry_from env pd maxRetries (attempt + 1)
       (if attempt < maxRetries
        then s\<lparr>invoked := invoked s @ [attempt], delays := delays s @ [(5000, 10000)]\<rparr>
        else s\<lparr>invoked := invoked s @ [attempt]\<rparr>)"
  by (subst postTweetWithRetry_from.simps) (simp add: Let_def)

lemma retry_throw_last:
  "submit env maxRetries = Throws err \<Longrightarrow>
   postTweetWithRetry_from env pd maxRetries maxRetries s =
     (False, s\<lparr>invoked := invoked s @ [maxRetries],
               db := logFailedPost (storeUp env) (clock env) pd err (db s)\<rparr>)"
  by (subst postTweetWithRetry_from.simps) (simp add: Let_def)

lemma retry_throw_again:
  "attempt < maxRetries \<Longrightarrow> submit env attempt = Throws err \<Longrightarrow>
   postTweetWithRetry_from env pd maxRetries attempt s =
     postTweetWithRetry_from env pd maxRetries (attempt + 1)
       (s\<lparr>invoked := invoked s @ [attempt], delays := delays s @ [(3000, 6000)]\<rparr>)"
  by (subst postTweetWithRetry_from.simps) (simp add: Let_def)

lemma retry_cases:
  obtains (exhausted) "\<not> attempt \<le> maxRetries"
  | (success) "attempt \<le> maxRetries" "submit (env :: retry_env) attempt = Returns True"
  | (false) "attempt \<le> maxRetries" "submit env attempt = Returns False"
  | (throw_last) err where "attempt = maxRetries" "submit env attempt = Throws err"
  | (throw_again) err where "attempt < maxRetries" "submit env attempt = Throws err"
  by (cases "submit env attempt") (force+)

text \<open>The submit operation is invoked at most \<open>maxRetries\<close> times.\<close>

lemma retry_from_invoked_bound:
  "length (invoked (snd (postTweetWithRetry_from env pd maxRetries attempt s)))
     \<le> length (invoked s) + (maxRetries + 1 - attempt)"
proof (induction env pd maxRetries attempt s rule: postTweetWithRetry_from.induct)
  case (1 env pd maxRetries attempt s)
  show ?case
  proof (cases rule: retry_cases [where attempt = attempt and maxRetries = maxRetries and env = env])
    case exhausted
    then show ?thesis by (simp add: retry_exhausted)
  next
    case success
    then show ?thesis by (simp add: retry_success)
  next
    case false
    with "1.IH"(1) [OF false(1) refl false(2)] show ?thesis
      by (simp add: retry_false split: if_splits)
  next
    case (throw_last err)
    then show ?thesis by (simp add: retry_throw_last)
  next
    case (throw_again err)
    with "1.IH"(2) [OF _ refl throw_again(2)] show ?thesis
      by (simp add: retry_throw_again)
  qed
qed

lemma postTweetWithRetry_invoked_bound:
  "length (invoked (snd (postTweetWithRetry env pd maxRetries))) \<le> maxRetries"
  using retry_from_invoked_bound [of env pd maxRetries 1 initial_retry_state]
  by (simp add: postTweetWithRetry_def initial_retry_state_def)

text \<open>No run writes two content-log entries.\<close>

lemma retry_from_log_bound:
  "length (contentLogs (db (snd (postTweetWithRetry_from env pd maxRetries attempt s))))
     \<le> length (contentLogs (db s)) + 1"
proof (induction env pd maxRetries attempt s rule: postTweetWithRetry_from.induct)
  case (1 env pd maxRetries attempt s)
  show ?case
  proof (cases rule: retry_cases [where attempt = attempt and maxRetries = maxRetries and env = env])
    case exhausted
    then show ?thesis by (simp add: retry_exhausted)
  next
    case success
    then show ?thesis by (simp add: retry_success logSuccessfulPost_def)
  next
    case false
    with "1.IH"(1) [OF false(1) refl false(2)] show ?thesis
      by (simp add: retry_false split: if_splits)
  next
    case (throw_last err)
    then show ?thesis by (simp add: retry_throw_last logFailedPost_def)
  next
    case (throw_again err)
    with "1.IH"(2) [OF _ refl throw_again(2)] show ?thesis
      by (simp add: retry_throw_again)
  qed
qed

lemma postTweetWithRetry_log_bound:
  "length (contentLogs (db (snd (postTweetWithRetry env pd maxRetries)))) \<le> 1"
  using retry_from_log_bound [of env pd maxRetries 1 initial_retry_state]
  by (simp add: postTweetWithRetry_def initial_retry_state_def initial_store_def)

text \<open>When every attempt returns \<open>false\<close> without throwing, the loop runs out and the function
  falls through to its last \<open>return false\<close>: the store is left as it was, for every
  \<open>maxRetries\<close>.\<close>

lemma retry_from_all_false_silent:
  assumes "\<forall>n. submit env n = Returns False"
  shows "fst (postTweetWithRetry_from env pd maxRetries attempt s) = False \<and>
         db (snd (postTweetWithRetry_from env pd maxRetries attempt s)) = db s"
  using assms
proof (induction env pd maxRetries attempt s rule: postTweetWithRetry_from.induct)
  case (1 env pd maxRetries attempt s)
  show ?case
  proof (cases "attempt \<le> maxRetries")
    case False
    then show ?thesis by (simp add: retry_exhausted)
  next
    case True
    have f: "submit env attempt = Returns False" using "1.prems" by simp
    from "1.IH"(1) [OF True refl f] "1.prems" show ?thesis
      by (simp add: retry_false [OF True f] split: if_splits)
  qed
qed

lemma postTweetWithRetry_all_false_silent:
  "\<forall>n. submit env n = Returns False \<Longrightarrow>
   postTweetWithRetry env pd maxRetries = (posted, s) \<Longrightarrow>
   \<not> posted \<and> db s = initial_store"
  using retry_from_all_false_silent [of env pd maxRetries 1 initial_retry_state]
  by (simp add: postTweetWithRetry_def initial_retry_state_def)

text \<open>Two failed attempts and a third that succeeds: one success entry with \<open>retryCount = 3\<close>,
  no failure entry.\<close>

lemma postTweetWithRetry_third_attempt_succeeds:
  "postTweetWithRetry (alwaysFalse_env\<lparr>submit := (\<lambda>n. Returns (n = 3))\<rparr>) samplePost 3 =
     (True, \<lparr>invoked = [1, 2, 3], delays = [(5000, 10000), (5000, 10000)],
              db = logSuccessfulPost True 0 samplePost 3 (js ''native_click_forced'')
                     initial_store\<rparr>)"
  by (simp add: postTweetWithRetry_def alwaysFalse_env_def initial_retry_state_def
      retry_false retry_success)
     (simp add: eval_nat_numeral)

text \<open>
  C1. The claim: for every \<open>maxRetries \<ge> 1\<close> and every sequence of outcomes of the submit
  operation, \<open>postTweetWithRetry\<close> invokes it at most \<open>maxRetries\<close> times and writes exactly one
  terminal log entry, also when every attempt returns \<open>false\<close> without throwing.
  The bound on the invocations holds (\<open>postTweetWithRetry_invoked_bound\<close>), and so does "never
  two entries" (\<open>postTweetWithRetry_log_bound\<close>). The run below is the case the claim singles
  out: \<open>maxRetries = 3\<close>, three attempts that return \<open>false\<close>. The function makes its three
  invocations, waits twice, returns \<open>false\<close>, and the content log, the error log and the CSV
  file are all empty: \<open>logFailedPost\<close> is called only in the \<open>catch\<close> branch.
\<close>

theorem postTweetWithRetry_three_false_attempts_log_nothing:
  "postTweetWithRetry alwaysFalse_env samplePost 3 =
     (False, \<lparr>invoked = [1, 2, 3], delays = [(5000, 10000), (5000, 10000)],
               db = \<lparr>contentLogs = [], errorLogs = [], csvRows = []\<rparr>\<rparr>)"
  by (simp add: postTweetWithRetry_def alwaysFalse_env_def initial_retry_state_def
      initial_store_def retry_false retry_exhausted)

section \<open>Properties of the content generator\<close>

lemma length_ellipsis: "length (js ''...'') = 3"
  by (simp add: js_def)

lemma truncateToLimit_length: "length (truncateToLimit content) \<le> 280"
  by (simp add: truncateToLimit_def length_ellipsis)

lemma truncateToLimit_short: "length content \<le> 280 \<Longrightarrow> truncateToLimit content = content"
  by (simp add: truncateToLimit_def)

lemma longRaw_clean: "stripQuotes (trim longRaw) = replicate 300 0x61"
  by (simp add: longRaw_def js_def trim_def stripQuotes_def isWhiteSpace_def isQuote_def
      butlast_append)

lemma generatePostWithOpenRouter_any_response:
  "generatePostWithOpenRouter response selectedTrend = Some g \<Longrightarrow> length (post g) \<le> 280"
  by (auto simp add: generatePostWithOpenRouter_def truncateToLimit_length
      split: api_response.splits option.splits)

text \<open>The comment generator of the engagement script obeys the same limit, on the trimmed
  answer.\<close>

lemma generateAIComment_length_limit:
  "generateAIComment apiKeyConfigured postText response = Some comment \<Longrightarrow>
   length comment \<le> 280 \<and>
   (\<forall>raw. response = Choice (Some raw) \<longrightarrow> length (trim raw) > 280 \<longrightarrow>
      comment = take 277 (trim raw) @ js ''...'')"
  by (auto simp add: generateAIComment_def truncateToLimit_def length_ellipsis
      split: api_response.splits option.splits if_splits)

text \<open>An answer with no blank and no quote at either end passes \<open>trim\<close> and the quote
  stripping unchanged.\<close>

lemma trim_unchanged:
  "raw \<noteq> [] \<Longrightarrow> \<not> isWhiteSpace (hd raw) \<Longrightarrow> \<not> isWhiteSpace (last raw) \<Longrightarrow> trim raw = raw"
proof -
  assume raw: "raw \<noteq> []" and first: "\<not> isWhiteSpace (hd raw)"
    and final: "\<not> isWhiteSpace (last raw)"
  from first have a: "dropWhile isWhiteSpace raw = raw"
    by (simp add: dropWhile_eq_self_iff)
  from raw final have b: "dropWhile isWhiteSpace (rev raw) = rev raw"
    by (simp add: dropWhile_eq_self_iff hd_rev)
  show "trim raw = raw" by (simp add: trim_def a b)
qed

lemma stripQuotes_unchanged:
  "raw \<noteq> [] \<Longrightarrow> \<not> isQuote (hd raw) \<Longrightarrow> \<not> isQuote (last raw) \<Longrightarrow> stripQuotes raw = raw"
  by (cases raw) (simp_all add: stripQuotes_def)

text \<open>
  C3. For every raw response text the generator returns a post of at most 280 code units;
  when the output, trimmed and stripped of its quotes, is longer than 280, the post is its
  first 277 code units followed by the three-character ellipsis \<open>...\<close>; for an answer
  without surrounding blanks or quotes these are the first 277 code units of the answer
  itself.
\<close>

theorem generatePostWithOpenRouter_length_limit:
  "\<exists>g. generatePostWithOpenRouter (Choice (Some raw)) selectedTrend = Some g \<and>
       length (post g) \<le> 280 \<and>
       (length (stripQuotes (trim raw)) > 280 \<longrightarrow>
          post g = take 277 (stripQuotes (trim raw)) @ js ''...'') \<and>
       (length raw > 280 \<and> \<not> isWhiteSpace (hd raw) \<and> \<not> isWhiteSpace (last raw) \<and>
        \<not> isQuote (hd raw) \<and> \<not> isQuote (last raw) \<longrightarrow>
          post g = take 277 raw @ js ''...'')"
proof -
  have "stripQuotes (trim raw) = raw"
    if "length raw > 280" "\<not> isWhiteSpace (hd raw)" "\<not> isWhiteSpace (last raw)"
      "\<not> isQuote (hd raw)" "\<not> isQuote (last raw)"
  proof -
    from that(1) have "raw \<noteq> []" by auto
    with that show ?thesis by (simp add: trim_unchanged stripQuotes_unchanged)
  qed
  then show ?thesis
    by (auto simp add: generatePostWithOpenRouter_def truncateToLimit_def length_ellipsis)
qed

theorem generatePostWithOpenRouter_length_limit_witness:
  "length (stripQuotes (trim longRaw)) > 280 \<and>
   map_option post (generatePostWithOpenRouter (Choice (Some longRaw)) sampleTrend) =
     Some (replicate 277 0x61 @ js ''...'') \<and>
   length (replicate 300 (0x61 :: jschar)) > 280 \<and>
   map_option post
     (generatePostWithOpenRouter (Choice (Some (replicate 300 0x61))) sampleTrend) =
     Some (replicate 277 0x61 @ js ''...'')"
  using generatePostWithOpenRouter_length_limit [of longRaw sampleTrend]
    generatePostWithOpenRouter_length_limit [of "replicate 300 0x61" sampleTrend]
  by (auto simp add: longRaw_clean isWhiteSpace_def isQuote_def)

section \<open>Properties of the diversity guard\<close>

lemma compareWithRecent_similar:
  "\<exists>p \<in> set ps. compareTwoStrings lib (toLowerCase lib (generatedPost p)) (toLowerCase lib newPost)
       > similarityThreshold \<Longrightarrow>
   \<not> compareWithRecent lib ps newPost"
  by (induction ps) auto

lemma compareWithRecent_all_below:
  "\<forall>p \<in> set ps. \<not> compareTwoStrings lib (toLowerCase lib (generatedPost p)) (toLowerCase lib newPost)
       > similarityThreshold \<Longrightarrow>
   compareWithRecent lib ps newPost"
  by (induction ps) auto
lemma recentPosts_sample: "recentPosts 5000 [loggedPost] = [loggedPost]"
  by (simp add: recentPosts_def loggedPost_def)

text \<open>
  C4. \<open>checkContentDiversity\<close> returns \<open>true\<close> when no successful entry of the last 24 hours
  exists; \<open>false\<close> when some fetched entry has case-insensitive similarity to the candidate
  above the threshold \<open>0.7\<close>, in particular (for a similarity that gives \<open>1\<close> on equal strings)
  when the candidate is identical to a fetched entry; and \<open>true\<close> when the lookup raises.
\<close>

theorem checkContentDiversity_guard:
  "((\<forall>e \<in> set logs. \<not> (now - 24 * 60 * 60 * 1000 \<le> postedAt e \<and> success e)) \<longrightarrow>
      checkContentDiversity lib now (Inr logs) newPost) \<and>
   ((\<exists>p \<in> set (recentPosts now logs).
        compareTwoStrings lib (toLowerCase lib (generatedPost p)) (toLowerCase lib newPost)
          > similarityThreshold) \<longrightarrow>
      \<not> checkContentDiversity lib now (Inr logs) newPost) \<and>
   ((\<forall>x. compareTwoStrings lib x x = 1) \<longrightarrow>
    (\<exists>p \<in> set (recentPosts now logs). generatedPost p = newPost) \<longrightarrow>
      \<not> checkContentDiversity lib now (Inr logs) newPost) \<and>
   checkContentDiversity lib now (Inl err) newPost"
proof (intro conjI impI)
  assume "\<forall>e \<in> set logs. \<not> (now - 24 * 60 * 60 * 1000 \<le> postedAt e \<and> success e)"
  then have "filter (\<lambda>e. now - 24 * 60 * 60 * 1000 \<le> postedAt e \<and> success e) logs = []"
    by (simp add: filter_empty_conv)
  then show "checkContentDiversity lib now (Inr logs) newPost"
    by (simp add: checkContentDiversity_def recentPosts_def)
next
  assume sim: "\<exists>p \<in> set (recentPosts now logs).
        compareTwoStrings lib (toLowerCase lib (generatedPost p)) (toLowerCase lib newPost)
          > similarityThreshold"
  then have "recentPosts now logs \<noteq> []" by auto
  with compareWithRecent_similar [OF sim]
  show "\<not> checkContentDiversity lib now (Inr logs) newPost"
    by (simp add: checkContentDiversity_def Let_def)
next
  assume refl: "\<forall>x. compareTwoStrings lib x x = 1"
    and same: "\<exists>p \<in> set (recentPosts now logs). generatedPost p = newPost"
  from same obtain p where p: "p \<in> set (recentPosts now logs)" "generatedPost p = newPost"
    by blast
  have "compareTwoStrings lib (toLowerCase lib (generatedPost p)) (toLowerCase lib newPost)
          > similarityThreshold"
    using refl p(2) by (simp add: similarityThreshold_def)
  with p(1) have sim: "\<exists>p \<in> set (recentPosts now logs).
        compareTwoStrings lib (toLowerCase lib (generatedPost p)) (toLowerCase lib newPost)
          > similarityThreshold"
    by blast
  then have "recentPosts now logs \<noteq> []" by auto
  with compareWithRecent_similar [OF sim]
  show "\<not> checkContentDiversity lib now (Inr logs) newPost"
    by (simp add: checkContentDiversity_def Let_def)
next
  show "checkContentDiversity lib now (Inl err) newPost"
    by (simp add: checkContentDiversity_def)
qed

theorem checkContentDiversity_guard_witness:
  "checkContentDiversity sampleLib 90000000 (Inr [loggedPost]) (js ''Lights everywhere tonight'') \<and>
   (\<forall>x. compareTwoStrings sampleLib x x = 1) \<and>
   generatedPost loggedPost = js ''Lights everywhere tonight'' \<and>
   loggedPost \<in> set (recentPosts 5000 [loggedPost]) \<and>
   compareTwoStrings sampleLib (toLowerCase sampleLib (generatedPost loggedPost))
      (toLowerCase sampleLib (js ''Lights everywhere tonight'')) > similarityThreshold \<and>
   \<not> checkContentDiversity sampleLib 5000 (Inr [loggedPost]) (js ''Lights everywhere tonight'') \<and>
   checkContentDiversity sampleLib 5000 (Inl (PageError [])) (js ''Lights everywhere tonight'')"
proof -
  let ?new = "js ''Lights everywhere tonight''"
  have r: "\<forall>x. compareTwoStrings sampleLib x x = 1" by (simp add: sampleLib_def)
  have g: "generatedPost loggedPost = ?new" by (simp add: loggedPost_def)
  have old: "\<forall>e \<in> set [loggedPost]. \<not> (90000000 - 24 * 60 * 60 * 1000 \<le> postedAt e \<and> success e)"
    by (simp add: loggedPost_def)
  have s: "compareTwoStrings sampleLib (toLowerCase sampleLib (generatedPost loggedPost))
      (toLowerCase sampleLib ?new) > similarityThreshold"
    by (simp add: g similarityThreshold_def) (simp add: sampleLib_def)
  then have m: "\<exists>p \<in> set (recentPosts 5000 [loggedPost]).
      compareTwoStrings sampleLib (toLowerCase sampleLib (generatedPost p))
        (toLowerCase sampleLib ?new) > similarityThreshold"
    by (simp add: recentPosts_sample)
  from checkContentDiversity_guard [of "[loggedPost]" 90000000 sampleLib ?new "PageError []"] old
  have a: "checkContentDiversity sampleLib 90000000 (Inr [loggedPost]) ?new"
    by blast
  from checkContentDiversity_guard [of "[loggedPost]" 5000 sampleLib ?new "PageError []"] m
  have b: "\<not> checkContentDiversity sampleLib 5000 (Inr [loggedPost]) ?new"
    and d: "checkContentDiversity sampleLib 5000 (Inl (PageError [])) ?new"
    by blast+
  from a r g s b d show ?thesis by (simp add: recentPosts_sample)
qed

section \<open>Properties of the session cookies\<close>

lemma cleanCookie_cleanedFrom: "keepCookie r \<Longrightarrow> cleanedFrom r (cleanCookie r)"
  by (auto simp add: keepCookie_def cleanedFrom_def cleanCookie_def truthy_def orString_def
      orFalse_def split: option.splits)

lemma cleanCookies_cleanedFrom:
  "c \<in> set (cleanCookies rawCookies) \<Longrightarrow> \<exists>r \<in> set rawCookies. cleanedFrom r c"
  by (auto simp add: cleanCookies_def intro: cleanCookie_cleanedFrom)

lemma applySessionCookies_args:
  "snd (applySessionCookies page sd) = [] \<or>
   snd (applySessionCookies page sd) = cleanCookies (cookies sd)"
  by (simp add: applySessionCookies_def Let_def split: sum.splits)

lemma applySessionCookies_engagement_args:
  "snd (applySessionCookies_engagement page sd) = [] \<or>
   snd (applySessionCookies_engagement page sd) = cleanCookies (cookies sd)"
  by (simp add: applySessionCookies_engagement_def Let_def split: sum.splits)

lemma extractAndSaveSession_saved:
  "extractAndSaveSession page up time email sessionsDB = sessionsDB \<or>
   (\<exists>rawCookies ls ss. pageCookies page = Inr rawCookies \<and>
      extractAndSaveSession page up time email sessionsDB =
        sessionsDB(email \<mapsto> \<lparr>savedCookies = cleanCookies rawCookies, savedLocalStorage = ls,
                                  savedSessionStorage = ss, updatedAt = time\<rparr>))"
  by (simp add: extractAndSaveSession_def saveSessionToDB_def Let_def split: sum.splits) blast
lemma cleanCookies_sample:
  "cleanCookies [sessionCookie, namelessCookie, persistentCookie] =
     [\<lparr>cleaned_name = Some (js ''auth_token''), cleaned_value = Some (js ''abc''),
       cleaned_domain = Some (js ''.twitter.com''), cleaned_path = js ''/'',
       cleaned_httpOnly = False, cleaned_secure = True, cleaned_sameSite = js ''Lax'',
       cleaned_expires = None\<rparr>,
      \<lparr>cleaned_name = Some (js ''ct0''), cleaned_value = Some (js ''x''),
       cleaned_domain = Some (js ''.twitter.com''), cleaned_path = js ''/home'',
       cleaned_httpOnly = True, cleaned_secure = False, cleaned_sameSite = js ''None'',
       cleaned_expires = Some 1700000000\<rparr>]"
  by (simp add: cleanCookies_def cleanCookie_def keepCookie_def truthy_def orString_def orFalse_def
      sessionCookie_def namelessCookie_def persistentCookie_def js_def)

text \<open>
  C10. Every cookie handed to \<open>page.setCookie\<close> by \<open>applySessionCookies\<close> (either script) and
  every cookie stored by \<open>extractAndSaveSession\<close> comes from a source cookie with non-empty
  name, value and domain, has path \<open>/\<close>, httpOnly \<open>false\<close>, secure \<open>false\<close> and sameSite \<open>Lax\<close>
  where the source gives none, and carries \<open>expires\<close> exactly when the source's value is present
  and strictly positive.
\<close>

theorem session_cookies_cleaned:
  "(\<forall>c \<in> set (snd (applySessionCookies page sd)). \<exists>r \<in> set (cookies sd). cleanedFrom r c) \<and>
   (\<forall>c \<in> set (snd (applySessionCookies_engagement page sd)).
       \<exists>r \<in> set (cookies sd). cleanedFrom r c) \<and>
   (extractAndSaveSession epage up time email sessionsDB = sessionsDB \<or>
    (\<exists>rawCookies s.
        pageCookies epage = Inr rawCookies \<and>
        extractAndSaveSession epage up time email sessionsDB = sessionsDB(email \<mapsto> s) \<and>
        (\<forall>c \<in> set (savedCookies s). \<exists>r \<in> set rawCookies. cleanedFrom r c)))"
proof (intro conjI)
  show "\<forall>c \<in> set (snd (applySessionCookies page sd)). \<exists>r \<in> set (cookies sd). cleanedFrom r c"
    using applySessionCookies_args [of page sd] cleanCookies_cleanedFrom [of _ "cookies sd"]
    by auto
  show "\<forall>c \<in> set (snd (applySessionCookies_engagement page sd)).
       \<exists>r \<in> set (cookies sd). cleanedFrom r c"
    using applySessionCookies_engagement_args [of page sd]
      cleanCookies_cleanedFrom [of _ "cookies sd"]
    by auto
  show "extractAndSaveSession epage up time email sessionsDB = sessionsDB \<or>
    (\<exists>rawCookies s.
        pageCookies epage = Inr rawCookies \<and>
        extractAndSaveSession epage up time email sessionsDB = sessionsDB(email \<mapsto> s) \<and>
        (\<forall>c \<in> set (savedCookies s). \<exists>r \<in> set rawCookies. cleanedFrom r c))"
  proof -
    from extractAndSaveSession_saved [of epage up time email sessionsDB]
    consider "extractAndSaveSession epage up time email sessionsDB = sessionsDB"
      | rawCookies ls ss where "pageCookies epage = Inr rawCookies"
        "extractAndSaveSession epage up time email sessionsDB =
           sessionsDB(email \<mapsto> \<lparr>savedCookies = cleanCookies rawCookies, savedLocalStorage = ls,
                                     savedSessionStorage = ss, updatedAt = time\<rparr>)"
      by blast
    then show ?thesis
    proof cases
      case 1
      then show ?thesis by simp
    next
      case 2
      have "\<forall>c \<in> set (savedCookies \<lparr>savedCookies = cleanCookies rawCookies, savedLocalStorage = ls,
                                     savedSessionStorage = ss, updatedAt = time\<rparr>).
              \<exists>r \<in> set rawCookies. cleanedFrom r c"
        using cleanCookies_cleanedFrom [of _ rawCookies] by simp
      with 2 show ?thesis by blast
    qed
  qed
qed

theorem session_cookies_cleaned_witness:
  "snd (applySessionCookies healthySessionPage storedSession) =
     cleanCookies [sessionCookie, namelessCookie, persistentCookie] \<and>
   snd (applySessionCookies_engagement healthySessionPage storedSession) =
     cleanCookies [sessionCookie, namelessCookie, persistentCookie] \<and>
   map (\<lambda>c. (cleaned_name c, cleaned_path c, cleaned_sameSite c, cleaned_expires c))
     (cleanCookies [sessionCookie, namelessCookie, persistentCookie]) =
     [(Some (js ''auth_token''), js ''/'', js ''Lax'', None),
      (Some (js ''ct0''), js ''/home'', js ''None'', Some 1700000000)] \<and>
   map_option savedCookies
     (extractAndSaveSession healthyExtractPage True 0 (js ''a@b.c'') Map.empty (js ''a@b.c'')) =
     Some (cleanCookies [sessionCookie, namelessCookie, persistentCookie])"
  using session_cookies_cleaned [of healthySessionPage storedSession healthyExtractPage True 0
      "js ''a@b.c''" Map.empty]
  by (simp add: cleanCookies_sample)
     (simp add: applySessionCookies_def applySessionCookies_engagement_def healthySessionPage_def
        storedSession_def extractAndSaveSession_def healthyExtractPage_def saveSessionToDB_def
        cleanCookies_sample)

section \<open>Properties of trend discovery\<close>

lemma keepUnseen_pair:
  "keepUnseen lib (unique, seen) t =
     (if toLowerCase lib (topic t) \<notin> seen
      then (unique @ [t], insert (toLowerCase lib (topic t)) seen)
      else (unique, seen))"
  by (simp add: keepUnseen_def)

lemma keepUnseen_seen:
  "snd (foldl (keepUnseen lib) ([], {}) topics) =
     (\<lambda>t. toLowerCase lib (topic t)) ` set (fst (foldl (keepUnseen lib) ([], {}) topics))"
proof (induction topics rule: rev_induct)
  case Nil
  then show ?case by simp
next
  case (snoc t topics)
  then show ?case
    by (cases "foldl (keepUnseen lib) ([], {}) topics") (auto simp add: keepUnseen_pair)
qed

lemma uniqueTopics_Nil: "uniqueTopics lib [] = []"
  by (simp add: uniqueTopics_def)

lemma uniqueTopics_snoc:
  "uniqueTopics lib (topics @ [t]) =
     (if toLowerCase lib (topic t) \<in> (\<lambda>u. toLowerCase lib (topic u)) ` set (uniqueTopics lib topics)
      then uniqueTopics lib topics
      else uniqueTopics lib topics @ [t])"
  using keepUnseen_seen [of lib topics]
  by (cases "foldl (keepUnseen lib) ([], {}) topics") (auto simp add: uniqueTopics_def keepUnseen_pair)

lemma uniqueTopics_keys:
  "(\<lambda>u. toLowerCase lib (topic u)) ` set (uniqueTopics lib topics) =
   (\<lambda>u. toLowerCase lib (topic u)) ` set topics"
  by (induction topics rule: rev_induct) (auto simp add: uniqueTopics_Nil uniqueTopics_snoc)

lemma uniqueTopics_distinct:
  "distinct (map (\<lambda>u. toLowerCase lib (topic u)) (uniqueTopics lib topics))"
  by (induction topics rule: rev_induct) (auto simp add: uniqueTopics_Nil uniqueTopics_snoc)

lemma find_snoc:
  "find P (xs @ [x]) =
     (case find P xs of Some a \<Rightarrow> Some a | None \<Rightarrow> if P x then Some x else None)"
  by (induction xs) auto

lemma uniqueTopics_first_occurrence:
  "t \<in> set (uniqueTopics lib topics) \<Longrightarrow>
   find (\<lambda>u. toLowerCase lib (topic u) = toLowerCase lib (topic t)) topics = Some t"
proof (induction topics rule: rev_induct)
  case Nil
  then show ?case by (simp add: uniqueTopics_Nil)
next
  case (snoc x topics)
  show ?case
  proof (cases "t \<in> set (uniqueTopics lib topics)")
    case True
    with snoc.IH show ?thesis by (simp add: find_snoc)
  next
    case False
    with snoc.prems have tx: "t = x"
      and new: "toLowerCase lib (topic x) \<notin> (\<lambda>u. toLowerCase lib (topic u)) ` set (uniqueTopics lib topics)"
      by (auto simp add: uniqueTopics_snoc split: if_splits)
    from new have "toLowerCase lib (topic x) \<notin> (\<lambda>u. toLowerCase lib (topic u)) ` set topics"
      by (simp add: uniqueTopics_keys)
    then have "\<forall>u \<in> set topics. toLowerCase lib (topic u) \<noteq> toLowerCase lib (topic x)"
      by (metis imageI)
    then have "find (\<lambda>u. toLowerCase lib (topic u) = toLowerCase lib (topic x)) topics = None"
      by (simp add: find_None_iff)
    with tx show ?thesis by (simp add: find_snoc)
  qed
qed

lemma getTrendingTopicsWithContext_cases:
  "getTrendingTopicsWithContext lib page = [] \<or>
   (\<exists>elements. trendElements page = Inr elements \<and>
      getTrendingTopicsWithContext lib page =
        take 15 (uniqueTopics lib (List.map_filter parseTrend elements)))"
  by (simp add: getTrendingTopicsWithContext_def split: sum.splits)
lemma renderedTrends_parsed:
  "List.map_filter parseTrend
     [[js ''Trending in India'', js ''Diwali'', js ''12K posts''], [js ''DIWALI''], [js ''ab''],
      [js ''Cricket'']] =
     [\<lparr>topic = js ''Diwali'', context' = js ''Trending in India'', tweetCount = js ''12K posts''\<rparr>,
      \<lparr>topic = js ''DIWALI'', context' = js ''Trending now'', tweetCount = js ''N/A''\<rparr>,
      \<lparr>topic = js ''Cricket'', context' = js ''Trending now'', tweetCount = js ''N/A''\<rparr>]"
  by (simp add: List.map_filter_def parseTrend_def classifySpan_def trim_def isWhiteSpace_def
      js_def Let_def)

lemma renderedTrends_result:
  "getTrendingTopicsWithContext sampleLib renderedTrends =
     [\<lparr>topic = js ''Diwali'', context' = js ''Trending in India'', tweetCount = js ''12K posts''\<rparr>,
      \<lparr>topic = js ''Cricket'', context' = js ''Trending now'', tweetCount = js ''N/A''\<rparr>]"
proof -
  have "getTrendingTopicsWithContext sampleLib renderedTrends =
          take 15 (uniqueTopics sampleLib (List.map_filter parseTrend
            [[js ''Trending in India'', js ''Diwali'', js ''12K posts''], [js ''DIWALI''],
             [js ''ab''], [js ''Cricket'']]))"
    by (simp add: getTrendingTopicsWithContext_def renderedTrends_def del: map_filter_simps)
  also have "\<dots> =
          take 15 (uniqueTopics sampleLib
            [\<lparr>topic = js ''Diwali'', context' = js ''Trending in India'',
               tweetCount = js ''12K posts''\<rparr>,
             \<lparr>topic = js ''DIWALI'', context' = js ''Trending now'', tweetCount = js ''N/A''\<rparr>,
             \<lparr>topic = js ''Cricket'', context' = js ''Trending now'', tweetCount = js ''N/A''\<rparr>])"
    by (simp only: renderedTrends_parsed)
  also have "\<dots> =
     [\<lparr>topic = js ''Diwali'', context' = js ''Trending in India'', tweetCount = js ''12K posts''\<rparr>,
      \<lparr>topic = js ''Cricket'', context' = js ''Trending now'', tweetCount = js ''N/A''\<rparr>]"
    by (simp add: uniqueTopics_def keepUnseen_pair sampleLib_def js_def)
  finally show ?thesis .
qed

text \<open>
  C7. \<open>getTrendingTopicsWithContext\<close> returns a list of at most 15 candidates whose lowercase
  topics are pairwise different, each candidate being the first extracted one with its
  lowercase topic; and it returns the empty list when the navigation, one of the three scroll
  scripts or the extraction script raises.
\<close>

theorem getTrendingTopicsWithContext_capped_unique:
  "length (getTrendingTopicsWithContext lib page) \<le> 15 \<and>
   distinct (map (\<lambda>t. toLowerCase lib (topic t)) (getTrendingTopicsWithContext lib page)) \<and>
   (\<forall>elements. trendElements page = Inr elements \<longrightarrow>
      (\<forall>t \<in> set (getTrendingTopicsWithContext lib page).
         find (\<lambda>u. toLowerCase lib (topic u) = toLowerCase lib (topic t))
           (List.map_filter parseTrend elements) = Some t)) \<and>
   (isl (gotoTrending page) \<or> isl (scrollBy page 0) \<or> isl (scrollBy page 1) \<or>
    isl (scrollBy page 2) \<or> isl (trendElements page) \<longrightarrow>
      getTrendingTopicsWithContext lib page = [])"
proof (intro conjI)
  show "length (getTrendingTopicsWithContext lib page) \<le> 15"
    using getTrendingTopicsWithContext_cases [of lib page] by auto
  show "distinct (map (\<lambda>t. toLowerCase lib (topic t)) (getTrendingTopicsWithContext lib page))"
    using getTrendingTopicsWithContext_cases [of lib page] uniqueTopics_distinct [of lib]
    by (auto simp add: take_map [symmetric] distinct_take)
  show "\<forall>elements. trendElements page = Inr elements \<longrightarrow>
      (\<forall>t \<in> set (getTrendingTopicsWithContext lib page).
         find (\<lambda>u. toLowerCase lib (topic u) = toLowerCase lib (topic t))
           (List.map_filter parseTrend elements) = Some t)"
    using getTrendingTopicsWithContext_cases [of lib page]
    by (auto dest!: in_set_takeD intro: uniqueTopics_first_occurrence)
  show "isl (gotoTrending page) \<or> isl (scrollBy page 0) \<or> isl (scrollBy page 1) \<or>
    isl (scrollBy page 2) \<or> isl (trendElements page) \<longrightarrow>
      getTrendingTopicsWithContext lib page = []"
    by (auto simp add: getTrendingTopicsWithContext_def isl_def split: sum.splits)
qed

theorem getTrendingTopicsWithContext_capped_unique_witness:
  "map topic (getTrendingTopicsWithContext sampleLib renderedTrends) = [js ''Diwali'', js ''Cricket''] \<and>
   length (getTrendingTopicsWithContext sampleLib renderedTrends) \<le> 15 \<and>
   isl (gotoTrending unreachableTrends) \<and>
   getTrendingTopicsWithContext sampleLib unreachableTrends = []"
  using getTrendingTopicsWithContext_capped_unique [of sampleLib renderedTrends]
    getTrendingTopicsWithContext_capped_unique [of sampleLib unreachableTrends]
  by (simp add: renderedTrends_result unreachableTrends_def)

section \<open>Properties of the interaction executor\<close>

lemma postTweetWithButton_after_compose:
  assumes "fst (composeAndLocateButton page tweetContent) = Inr ()"
  shows "fst (postTweetWithButton page tweetContent) = fst (clickPostButton page)"
    and "\<exists>rest. snd (postTweetWithButton page tweetContent) =
           snd (composeAndLocateButton page tweetContent) @ snd (clickPostButton page) @ rest"
proof -
  obtain t0 where c: "composeAndLocateButton page tweetContent = (Inr (), t0)"
    using assms by (cases "composeAndLocateButton page tweetContent") auto
  obtain clicked t1 where k: "clickPostButton page = (clicked, t1)"
    by (cases "clickPostButton page") auto
  obtain verified t2 where v: "verifyTweetPosted page tweetContent = (verified, t2)"
    by (cases "verifyTweetPosted page tweetContent") auto
  show "fst (postTweetWithButton page tweetContent) = fst (clickPostButton page)"
    by (simp add: postTweetWithButton_def postTweetWithButton_try_def andThen_def c k v)
  show "\<exists>rest. snd (postTweetWithButton page tweetContent) =
           snd (composeAndLocateButton page tweetContent) @ snd (clickPostButton page) @ rest"
    by (simp add: postTweetWithButton_def postTweetWithButton_try_def andThen_def c k v)
qed

lemma clickPostButton_accepts_first:
  "fst (clickPostButton page) \<longleftrightarrow>
     \<not> isl (nativeClick page) \<or> \<not> isl (evaluateClick page) \<or> fst (tryCoordinateClick page)"
  by (auto simp add: clickPostButton_def tryNativeClick_def tryEvaluateClick_def
      split: sum.splits prod.splits)

lemma clickPostButton_strategies:
  "strategiesTried (snd (clickPostButton page)) =
     (if \<not> isl (nativeClick page) then [NativeElementClick]
      else if \<not> isl (evaluateClick page) then [NativeElementClick, ScriptInjectedClick]
      else [NativeElementClick, ScriptInjectedClick, CoordinateMouseClick])"
  by (auto simp add: clickPostButton_def tryNativeClick_def tryEvaluateClick_def
      tryCoordinateClick_def strategiesTried_def List.map_filter_def Let_def
      split: sum.splits prod.splits option.splits)

lemma tryCoordinateClick_iff:
  "fst (tryCoordinateClick page) \<longleftrightarrow>
     (\<exists>b. queryButton page = Inr True \<and> boundingBox page = Inr (Some b) \<and>
          mouseClick page (box_x b + box_width b / 2) (box_y b + box_height b / 2) = Inr ())"
  by (auto simp add: tryCoordinateClick_def Let_def split: sum.splits option.splits)

lemma tryCoordinateClick_raises:
  assumes "isl (queryButton page) \<or> isl (boundingBox page) \<or> (\<forall>x y. isl (mouseClick page x y))"
  shows "\<not> fst (tryCoordinateClick page)"
proof
  assume "fst (tryCoordinateClick page)"
  then obtain b where "queryButton page = Inr True" "boundingBox page = Inr (Some b)"
    "mouseClick page (box_x b + box_width b / 2) (box_y b + box_height b / 2) = Inr ()"
    unfolding tryCoordinateClick_iff by blast
  with assms show False by (metis isl_def sum.disc(2) sum.distinct(1))
qed

lemma clickPostButton_centre:
  "MouseClick x y \<in> set (snd (clickPostButton page)) \<Longrightarrow>
   \<exists>b. boundingBox page = Inr (Some b) \<and> x = box_x b + box_width b / 2 \<and>
       y = box_y b + box_height b / 2"
  by (auto simp add: clickPostButton_def tryNativeClick_def tryEvaluateClick_def
      tryCoordinateClick_def Let_def split: sum.splits prod.splits option.splits if_splits)

lemma strategiesTried_append:
  "strategiesTried (t @ t') = strategiesTried t @ strategiesTried t'"
  by (simp add: strategiesTried_def List.map_filter_def)

lemma snd_andThen:
  "snd (andThen m f) = (case fst m of Inl e \<Rightarrow> snd m | Inr a \<Rightarrow> snd m @ snd (f a))"
proof (cases m)
  case (Pair r t)
  show ?thesis
  proof (cases r)
    case (Inl e)
    with Pair show ?thesis by (simp add: andThen_def)
  next
    case (Inr a)
    with Pair show ?thesis by (cases "f a") (simp add: andThen_def)
  qed
qed

lemma strategiesTried_andThen:
  "strategiesTried (snd m) = [] \<Longrightarrow> (\<And>a. strategiesTried (snd (f a)) = []) \<Longrightarrow>
   strategiesTried (snd (andThen m f)) = []"
  by (simp add: snd_andThen strategiesTried_append split: sum.splits)

lemma strategiesTried_perform:
  "strategyOf c = None \<Longrightarrow> strategiesTried (snd (perform c r)) = []"
  by (simp add: perform_def strategiesTried_def List.map_filter_def)

lemma strategiesTried_Cons:
  "strategiesTried (c # t) = (case strategyOf c of None \<Rightarrow> [] | Some s \<Rightarrow> [s]) @ strategiesTried t"
  by (simp add: strategiesTried_def List.map_filter_def split: option.splits)

lemma strategiesTried_findTextarea:
  "strategiesTried (snd (findTextarea page selectors)) = []"
proof (induction selectors)
  case Nil
  then show ?case by (simp add: strategiesTried_def List.map_filter_def)
next
  case (Cons i rest)
  obtain found t where r: "findTextarea page rest = (found, t)"
    by (cases "findTextarea page rest") auto
  with Cons show ?case
    by (simp add: strategiesTried_Cons split: sum.splits bool.splits)
       (simp add: strategiesTried_def List.map_filter_def)
qed

lemma strategiesTried_typeText:
  "strategiesTried (snd (typeText page positions)) = []"
proof (induction positions)
  case Nil
  then show ?case by (simp add: strategiesTried_def List.map_filter_def)
next
  case (Cons i rest)
  then show ?case
    by (simp add: strategiesTried_andThen strategiesTried_perform)
qed

lemma snd_case_pair: "snd (case p of (found, t) \<Rightarrow> (g found, t)) = snd p"
  by (cases p) simp

lemma strategiesTried_compose:
  "strategiesTried (snd (composeAndLocateButton page tweetContent)) = []"
  unfolding composeAndLocateButton_def
  by (intro strategiesTried_andThen strategiesTried_perform)
     (simp_all add: snd_case_pair strategiesTried_findTextarea strategiesTried_typeText
        del: findTextarea.simps)

lemma strategiesTried_verify:
  "strategiesTried (snd (verifyTweetPosted page tweetContent)) = []"
  by (auto simp add: verifyTweetPosted_def strategiesTried_def List.map_filter_def
      split: sum.splits option.splits)

lemma postTweetWithButton_trace:
  assumes "fst (composeAndLocateButton page tweetContent) = Inr ()"
  shows "snd (postTweetWithButton page tweetContent) =
           snd (composeAndLocateButton page tweetContent) @ snd (clickPostButton page) @
           (if fst (clickPostButton page) then snd (verifyTweetPosted page tweetContent)
            else [Screenshot])"
proof -
  obtain t0 where c: "composeAndLocateButton page tweetContent = (Inr (), t0)"
    using assms by (cases "composeAndLocateButton page tweetContent") auto
  obtain clicked t1 where k: "clickPostButton page = (clicked, t1)"
    by (cases "clickPostButton page") auto
  obtain verified t2 where v: "verifyTweetPosted page tweetContent = (verified, t2)"
    by (cases "verifyTweetPosted page tweetContent") auto
  show ?thesis
    by (simp add: postTweetWithButton_def postTweetWithButton_try_def andThen_def c k v)
qed

lemma postTweetWithButton_strategies:
  assumes "fst (composeAndLocateButton page tweetContent) = Inr ()"
  shows "strategiesTried (snd (postTweetWithButton page tweetContent)) =
           strategiesTried (snd (clickPostButton page))"
  by (simp add: postTweetWithButton_trace [OF assms] strategiesTried_append
      strategiesTried_compose strategiesTried_verify)
     (simp add: strategiesTried_def List.map_filter_def)
lemma compose_healthy: "fst (composeAndLocateButton healthyPage (js ''hi'')) = Inr ()"
  by (simp add: composeAndLocateButton_def andThen_def perform_def healthyPage_def js_def upt_rec)

lemma compose_nativeBlocked: "fst (composeAndLocateButton nativeBlockedPage (js ''hi'')) = Inr ()"
  by (simp add: composeAndLocateButton_def andThen_def perform_def healthyPage_def
      nativeBlockedPage_def js_def upt_rec)

lemma compose_allBlocked: "fst (composeAndLocateButton allBlockedPage (js ''hi'')) = Inr ()"
  by (simp add: composeAndLocateButton_def andThen_def perform_def healthyPage_def
      nativeBlockedPage_def coordinateOnlyPage_def allBlockedPage_def js_def upt_rec)

lemma click_healthy: "fst (clickPostButton healthyPage)"
  by (simp add: clickPostButton_def tryNativeClick_def healthyPage_def)

lemma verify_healthy: "\<not> fst (verifyTweetPosted healthyPage (js ''hi''))"
  by (simp add: verifyTweetPosted_def healthyPage_def js_def trim_def isWhiteSpace_def)

text \<open>
  C2. Whenever the click step of \<open>postTweetWithButton\<close> succeeds (the steps before it complete
  and one click strategy is accepted), the function returns \<open>true\<close>, whatever
  \<open>verifyTweetPosted\<close> answers.
\<close>

theorem postTweetWithButton_click_success_returns_true:
  "fst (composeAndLocateButton page tweetContent) = Inr () \<Longrightarrow>
   fst (clickPostButton page) \<Longrightarrow>
   fst (postTweetWithButton page tweetContent)"
  by (simp add: postTweetWithButton_after_compose(1))

theorem postTweetWithButton_click_success_returns_true_witness:
  "fst (composeAndLocateButton healthyPage (js ''hi'')) = Inr () \<and>
   fst (clickPostButton healthyPage) \<and>
   \<not> fst (verifyTweetPosted healthyPage (js ''hi'')) \<and>
   fst (postTweetWithButton healthyPage (js ''hi''))"
  using postTweetWithButton_click_success_returns_true [OF compose_healthy click_healthy]
  by (simp add: compose_healthy click_healthy verify_healthy)

text \<open>
  C5. Once the post button is located, the click strategies tried are, in this order, the
  native element click, the script-injected click and the coordinate click, stopping after the
  first one that does not raise; a coordinate click is issued at the centre of the
  element's bounding box only; the submit returns \<open>true\<close> exactly when one strategy is accepted,
  and \<open>false\<close> when all three raise.
\<close>

theorem postTweetWithButton_click_strategies:
  "fst (composeAndLocateButton page tweetContent) = Inr () \<Longrightarrow>
   strategiesTried (snd (postTweetWithButton page tweetContent)) =
     (if \<not> isl (nativeClick page) then [NativeElementClick]
      else if \<not> isl (evaluateClick page) then [NativeElementClick, ScriptInjectedClick]
      else [NativeElementClick, ScriptInjectedClick, CoordinateMouseClick]) \<and>
   (\<forall>x y. MouseClick x y \<in> set (snd (clickPostButton page)) \<longrightarrow>
      (\<exists>b. boundingBox page = Inr (Some b) \<and> x = box_x b + box_width b / 2 \<and>
           y = box_y b + box_height b / 2)) \<and>
   (fst (postTweetWithButton page tweetContent) \<longleftrightarrow>
      \<not> isl (nativeClick page) \<or> \<not> isl (evaluateClick page) \<or> fst (tryCoordinateClick page)) \<and>
   (isl (nativeClick page) \<and> isl (evaluateClick page) \<and>
    (isl (queryButton page) \<or> isl (boundingBox page) \<or> (\<forall>x y. isl (mouseClick page x y))) \<longrightarrow>
      \<not> fst (postTweetWithButton page tweetContent))"
proof (intro conjI allI impI)
  assume c: "fst (composeAndLocateButton page tweetContent) = Inr ()"
  show "strategiesTried (snd (postTweetWithButton page tweetContent)) =
     (if \<not> isl (nativeClick page) then [NativeElementClick]
      else if \<not> isl (evaluateClick page) then [NativeElementClick, ScriptInjectedClick]
      else [NativeElementClick, ScriptInjectedClick, CoordinateMouseClick])"
    by (simp only: postTweetWithButton_strategies [OF c] clickPostButton_strategies)
  show "fst (postTweetWithButton page tweetContent) \<longleftrightarrow>
      \<not> isl (nativeClick page) \<or> \<not> isl (evaluateClick page) \<or> fst (tryCoordinateClick page)"
    by (simp only: postTweetWithButton_after_compose(1) [OF c] clickPostButton_accepts_first)
  {
    assume "isl (nativeClick page) \<and> isl (evaluateClick page) \<and>
      (isl (queryButton page) \<or> isl (boundingBox page) \<or> (\<forall>x y. isl (mouseClick page x y)))"
    then show "\<not> fst (postTweetWithButton page tweetContent)"
      using tryCoordinateClick_raises [of page]
      by (simp only: postTweetWithButton_after_compose(1) [OF c] clickPostButton_accepts_first)
         blast
  }
next
  fix x y
  assume "MouseClick x y \<in> set (snd (clickPostButton page))"
  then show "\<exists>b. boundingBox page = Inr (Some b) \<and> x = box_x b + box_width b / 2 \<and>
           y = box_y b + box_height b / 2"
    by (rule clickPostButton_centre)
qed

theorem postTweetWithButton_click_strategies_witness:
  "fst (composeAndLocateButton nativeBlockedPage (js ''hi'')) = Inr () \<and>
   isl (nativeClick nativeBlockedPage) \<and>
   strategiesTried (snd (postTweetWithButton nativeBlockedPage (js ''hi''))) =
     [NativeElementClick, ScriptInjectedClick] \<and>
   fst (postTweetWithButton nativeBlockedPage (js ''hi'')) \<and>
   fst (composeAndLocateButton allBlockedPage (js ''hi'')) = Inr () \<and>
   strategiesTried (snd (postTweetWithButton allBlockedPage (js ''hi''))) =
     [NativeElementClick, ScriptInjectedClick, CoordinateMouseClick] \<and>
   MouseClick (25 / 2) (43 / 2) \<in> set (snd (clickPostButton allBlockedPage)) \<and>
   \<not> fst (postTweetWithButton allBlockedPage (js ''hi''))"
  using postTweetWithButton_click_strategies [OF compose_nativeBlocked]
    postTweetWithButton_click_strategies [OF compose_allBlocked]
  by (simp add: compose_nativeBlocked compose_allBlocked)
     (simp add: nativeBlockedPage_def coordinateOnlyPage_def allBlockedPage_def healthyPage_def
        clickPostButton_def tryNativeClick_def tryEvaluateClick_def tryCoordinateClick_def)

section \<open>Properties of the continuous-engagement loop\<close>

lemma scrollFeed_ends_by_raise:
  assumes "scrollFeed env s = Some r"
  shows "scrollFeed_pass env (snd r) = Inl (fst r)"
  by (rule scrollFeed.raw_induct
        [where P = "\<lambda>env s r. scrollFeed_pass env (snd r) = Inl (fst r)", OF _ assms])
     (auto split: sum.splits)

lemma scrollFeed_pass_raises:
  "scrollFeed_pass env s = Inl e \<Longrightarrow>
   scrollPage env (scrollAttempts s + 1) = Inl e \<or> countTweets env (scrollAttempts s + 1) = Inl e"
  by (auto simp add: scrollFeed_pass_def Let_def split: sum.splits)

lemma scrollFeed_healthy_runs_forever:
  assumes "\<forall>n. \<not> isl (scrollPage env n) \<and> \<not> isl (countTweets env n)"
  shows "scrollFeed env s = None"
proof (cases "scrollFeed env s")
  case None
  then show ?thesis .
next
  case (Some r)
  from scrollFeed_pass_raises [OF scrollFeed_ends_by_raise [OF Some]] assms
  show ?thesis by (auto simp add: isl_def)
qed

lemma scrollFeed_same_passes:
  assumes run: "scrollFeed env s = Some r"
    and same: "\<And>s. scrollFeed_pass env' s = scrollFeed_pass env s"
  shows "scrollFeed env' s = Some r"
proof -
  have "env = env \<longrightarrow> scrollFeed env' s = Some r"
  proof (rule scrollFeed.raw_induct
      [where P = "\<lambda>e s r. e = env \<longrightarrow> scrollFeed env' s = Some r", OF _ run])
    fix f e s r
    assume IH: "\<And>e s r. f e s = Some r \<Longrightarrow> e = env \<longrightarrow> scrollFeed env' s = Some r"
      and step: "(case scrollFeed_pass e s of Inl err \<Rightarrow> Some (err, s) | Inr s' \<Rightarrow> f e s') = Some r"
    show "e = env \<longrightarrow> scrollFeed env' s = Some r"
    proof
      assume e: "e = env"
      show "scrollFeed env' s = Some r"
      proof (cases "scrollFeed_pass env s")
        case (Inl err)
        with step e show ?thesis by (subst scrollFeed.simps) (simp add: same)
      next
        case (Inr s')
        with step e have "f env s' = Some r" by simp
        from IH [OF this] have "scrollFeed env' s' = Some r" by simp
        with Inr show ?thesis by (subst scrollFeed.simps) (simp add: same)
      qed
    qed
  qed
  then show ?thesis by simp
qed

lemma scrollFeed_pass_ignores_stop:
  "scrollFeed_pass (env\<lparr>stopRequested := requested\<rparr>) s = scrollFeed_pass env s"
  by (simp add: scrollFeed_pass_def likeStep_def commentStep_def notificationStep_def Let_def split: sum.splits)

lemma scrollFeed_ignores_stop:
  "scrollFeed (env\<lparr>stopRequested := requested\<rparr>) s = scrollFeed env s"
proof (cases "scrollFeed env s")
  case (Some r)
  from scrollFeed_same_passes [OF Some, of "env\<lparr>stopRequested := requested\<rparr>"] Some
  show ?thesis by (simp add: scrollFeed_pass_ignores_stop)
next
  case None
  show ?thesis
  proof (cases "scrollFeed (env\<lparr>stopRequested := requested\<rparr>) s")
    case None
    with \<open>scrollFeed env s = None\<close> show ?thesis by simp
  next
    case (Some r)
    from scrollFeed_same_passes [OF Some, of env] \<open>scrollFeed env s = None\<close>
    show ?thesis by (simp add: scrollFeed_pass_ignores_stop)
  qed
qed

text \<open>
  C6, as the code has it. \<open>scrollFeed\<close> reads no cancellation signal: its run is the same
  whatever stop request is pending; it never returns normally, and it ends only when the scroll
  script or the tweet count of some pass raises; on a page where neither raises it runs forever.
\<close>

theorem scrollFeed_has_no_cancellation:
  "scrollFeed (env\<lparr>stopRequested := requested\<rparr>) s = scrollFeed env s \<and>
   (\<forall>e s'. scrollFeed env s = Some (e, s') \<longrightarrow>
      scrollPage env (scrollAttempts s' + 1) = Inl e \<or>
      countTweets env (scrollAttempts s' + 1) = Inl e) \<and>
   ((\<forall>n. \<not> isl (scrollPage env n) \<and> \<not> isl (countTweets env n)) \<longrightarrow> scrollFeed env s = None)"
proof (intro conjI allI impI)
  show "scrollFeed (env\<lparr>stopRequested := requested\<rparr>) s = scrollFeed env s"
    by (rule scrollFeed_ignores_stop)
next
  fix e s'
  assume "scrollFeed env s = Some (e, s')"
  from scrollFeed_pass_raises [OF scrollFeed_ends_by_raise [OF this, simplified]]
  show "scrollPage env (scrollAttempts s' + 1) = Inl e \<or>
      countTweets env (scrollAttempts s' + 1) = Inl e" .
next
  assume "\<forall>n. \<not> isl (scrollPage env n) \<and> \<not> isl (countTweets env n)"
  then show "scrollFeed env s = None" by (rule scrollFeed_healthy_runs_forever)
qed

lemma stopRequestedEnv_healthy:
  "\<forall>n. \<not> isl (scrollPage stopRequestedEnv n) \<and> \<not> isl (countTweets stopRequestedEnv n)"
  by (simp add: stopRequestedEnv_def)

lemma stopRequestedEnv_three_passes:
  "scrollFeed_passes 3 stopRequestedEnv initial_feed_state =
     Inr \<lparr>scrollAttempts = 3, totalLiked = 0, totalCommented = 0, activityLog = []\<rparr>"
  by (simp add: numeral_3_eq_3 scrollFeed_pass_def likeStep_def commentStep_def notificationStep_def
      stopRequestedEnv_def initial_feed_state_def)

text \<open>
  C6, as claimed, fails: with a stop requested before the first pass and a healthy page, the loop
  has made three passes after three passes, and the call never returns.
\<close>

theorem scrollFeed_stop_request_counterexample:
  "stopRequested stopRequestedEnv 0 \<and>
   scrollFeed_passes 3 stopRequestedEnv initial_feed_state =
     Inr \<lparr>scrollAttempts = 3, totalLiked = 0, totalCommented = 0, activityLog = []\<rparr> \<and>
   scrollFeed stopRequestedEnv initial_feed_state = None"
  by (simp add: stopRequestedEnv_three_passes scrollFeed_healthy_runs_forever [OF stopRequestedEnv_healthy])
     (simp add: stopRequestedEnv_def)

lemma closedBrowser_run:
  "scrollFeed closedBrowserEnv initial_feed_state =
     Some (PageError (js ''closed''), \<lparr>scrollAttempts = 2, totalLiked = 0, totalCommented = 0, activityLog = []\<rparr>)"
  apply (subst scrollFeed.simps)
  apply (simp add: scrollFeed_pass_def likeStep_def commentStep_def notificationStep_def closedBrowserEnv_def
      stopRequestedEnv_def initial_feed_state_def)
  apply (subst scrollFeed.simps)
  apply (simp add: scrollFeed_pass_def likeStep_def commentStep_def notificationStep_def closedBrowserEnv_def
      stopRequestedEnv_def initial_feed_state_def)
  apply (subst scrollFeed.simps)
  apply (simp add: scrollFeed_pass_def likeStep_def commentStep_def notificationStep_def closedBrowserEnv_def
      stopRequestedEnv_def initial_feed_state_def)
  done

theorem scrollFeed_has_no_cancellation_witness:
  "(\<forall>n. \<not> isl (scrollPage stopRequestedEnv n) \<and> \<not> isl (countTweets stopRequestedEnv n)) \<and>
   scrollFeed stopRequestedEnv initial_feed_state = None \<and>
   scrollFeed (stopRequestedEnv\<lparr>stopRequested := (\<lambda>n. False)\<rparr>) initial_feed_state = None \<and>
   scrollFeed closedBrowserEnv initial_feed_state =
     Some (PageError (js ''closed''), \<lparr>scrollAttempts = 2, totalLiked = 0, totalCommented = 0, activityLog = []\<rparr>) \<and>
   scrollPage closedBrowserEnv 3 = Inl (PageError (js ''closed''))"
  using scrollFeed_has_no_cancellation
      [where env = stopRequestedEnv and requested = "\<lambda>n. False" and s = initial_feed_state]
    scrollFeed_has_no_cancellation
      [where env = closedBrowserEnv and requested = "\<lambda>n. False" and s = initial_feed_state]
    stopRequestedEnv_healthy
  by (simp add: closedBrowser_run) (simp add: closedBrowserEnv_def)

section \<open>Properties of the single-cycle run\<close>

lemma randomElement_defined:
  assumes "0 \<le> r" "r < 1" "xs \<noteq> []"
  shows "\<exists>x \<in> set xs. randomElement r xs = Some x"
proof -
  have n: "0 < real (length xs)" using assms(3) by simp
  have lo: "0 \<le> \<lfloor>r * real (length xs)\<rfloor>" using assms(1) by simp
  have "r * real (length xs) < real (length xs)" using assms(2) n by simp
  then have hi: "\<lfloor>r * real (length xs)\<rfloor> < int (length xs)"
    by (simp add: floor_less_iff)
  then have "nat \<lfloor>r * real (length xs)\<rfloor> < length xs" using lo by linarith
  with lo hi show ?thesis by (simp add: randomElement_def Let_def)
qed

lemma selectRandomTrend_defined:
  assumes "0 \<le> r" "r < 1" "trends \<noteq> []"
  shows "\<exists>t. selectRandomTrend lib r trends usedTopics = Some t"
proof (cases "filter (\<lambda>t. toLowerCase lib (topic t) \<notin> set usedTopics) trends = []")
  case True
  with randomElement_defined [OF assms] show ?thesis
    by (auto simp add: selectRandomTrend_def)
next
  case False
  with randomElement_defined [OF assms(1,2) False] show ?thesis
    by (auto simp add: selectRandomTrend_def)
qed

lemma events_abortRun: "events (abortRun env done err) = done @ [CriticalError err]"
  by (simp add: abortRun_def)

lemma contentLogs_abortRun: "contentLogs (written (abortRun env done err)) = []"
  by (simp add: abortRun_def initial_store_def)

lemma events_submitWithRetry:
  "\<exists>posted. events (submitWithRetry env done postData) = done @ [Submit postData posted]"
  by (simp add: submitWithRetry_def split: prod.splits)

lemma main_generation_fails:
  assumes "setupSteps env = Inr ()"
    and "getTrendingTopicsWithContext (library env) (trendsPage env) \<noteq> []"
    and "selectRandomTrend (library env) (random env 0)
           (getTrendingTopicsWithContext (library env) (trendsPage env)) [] = Some selectedTrend"
    and "generatePostWithOpenRouter (responses env 0) selectedTrend = None"
  shows "main env = abortRun env [Generate selectedTrend None] NoPostContent"
  using assms by (simp add: main_def Let_def)

lemma main_regeneration_fails:
  assumes "setupSteps env = Inr ()"
    and "getTrendingTopicsWithContext (library env) (trendsPage env) \<noteq> []"
    and "selectRandomTrend (library env) (random env 0)
           (getTrendingTopicsWithContext (library env) (trendsPage env)) [] = Some selectedTrend"
    and "generatePostWithOpenRouter (responses env 0) selectedTrend = Some pd"
    and "\<not> checkContentDiversity (library env) (currentTime env) (historyQuery env) (post pd)"
    and "selectRandomTrend (library env) (random env 1)
           (getTrendingTopicsWithContext (library env) (trendsPage env))
           [toLowerCase (library env) (topic selectedTrend)] = Some newTrend"
  shows "main env =
           submitWithRetry env
             [Generate selectedTrend (Some pd), DiversityCheck (post pd) False,
              Generate newTrend (generatePostWithOpenRouter (responses env 1) newTrend)]
             (case generatePostWithOpenRouter (responses env 1) newTrend of
                Some r \<Rightarrow> r | None \<Rightarrow> pd)"
  using assms by (simp add: main_def Let_def split: option.splits)

lemma main_events_shape:
  "(\<exists>e. events (main env) = [CriticalError e]) \<or>
   (\<exists>sel. events (main env) = [Generate sel None, CriticalError NoPostContent]) \<or>
   (\<exists>sel pd posted. events (main env) =
      [Generate sel (Some pd), DiversityCheck (post pd) True, Submit pd posted]) \<or>
   (\<exists>sel pd. events (main env) =
      [Generate sel (Some pd), DiversityCheck (post pd) False, CriticalError TypeError]) \<or>
   (\<exists>sel pd new posted. events (main env) =
      [Generate sel (Some pd), DiversityCheck (post pd) False, Generate new None,
       Submit pd posted]) \<or>
   (\<exists>sel pd new r posted. events (main env) =
      [Generate sel (Some pd), DiversityCheck (post pd) False, Generate new (Some r),
       Submit r posted])"
proof (cases "setupSteps env")
  case (Inl e)
  then show ?thesis by (simp add: main_def events_abortRun)
next
  case ready: (Inr u)
  let ?trends = "getTrendingTopicsWithContext (library env) (trendsPage env)"
  show ?thesis
  proof (cases "?trends = []")
    case True
    with ready show ?thesis by (simp add: main_def events_abortRun)
  next
    case trends: False
    show ?thesis
    proof (cases "selectRandomTrend (library env) (random env 0) ?trends []")
      case None
      with ready trends show ?thesis by (simp add: main_def events_abortRun)
    next
      case sel: (Some selectedTrend)
      show ?thesis
      proof (cases "generatePostWithOpenRouter (responses env 0) selectedTrend")
        case None
        with ready trends sel show ?thesis by (simp add: main_def events_abortRun)
      next
        case gen: (Some pd)
        show ?thesis
        proof (cases "checkContentDiversity (library env) (currentTime env) (historyQuery env)
                        (post pd)")
          case True
          with ready trends sel gen events_submitWithRetry
            [of env "[Generate selectedTrend (Some pd), DiversityCheck (post pd) True]" pd]
          show ?thesis by (auto simp add: main_def)
        next
          case rejected: False
          show ?thesis
          proof (cases "selectRandomTrend (library env) (random env 1) ?trends
                          [toLowerCase (library env) (topic selectedTrend)]")
            case None
            with ready trends sel gen rejected show ?thesis
              by (simp add: main_def events_abortRun)
          next
            case reselected: (Some newTrend)
            show ?thesis
            proof (cases "generatePostWithOpenRouter (responses env 1) newTrend")
              case None
              with ready trends sel gen rejected reselected events_submitWithRetry
                [of env "[Generate selectedTrend (Some pd), DiversityCheck (post pd) False,
                          Generate newTrend None]" pd]
              show ?thesis by (auto simp add: main_def)
            next
              case (Some r)
              with ready trends sel gen rejected reselected events_submitWithRetry
                [of env "[Generate selectedTrend (Some pd), DiversityCheck (post pd) False,
                          Generate newTrend (Some r)]" r]
              show ?thesis by (auto simp add: main_def)
            qed
          qed
        qed
      qed
    qed
  qed
qed

lemma events_submitWithRetry_posted:
  "events (submitWithRetry env done postData) =
     done @ [Submit postData
       (fst (postTweetWithRetry
          \<lparr>submit = (\<lambda>n. Returns (fst (postTweetWithButton (postPages env n) (post postData)))),
           storeUp = databaseUp env, clock = currentTime env\<rparr>
          postData maxRetries_config))]"
  by (simp add: submitWithRetry_def split: prod.splits)

lemma trends_sample:
  "getTrendingTopicsWithContext sampleLib renderedTrends = [sampleTrend, cricketTrend]"
  by (simp add: renderedTrends_result sampleTrend_def cricketTrend_def)

lemma select_first: "selectRandomTrend sampleLib 0 [sampleTrend, cricketTrend] [] = Some sampleTrend"
  by (simp add: selectRandomTrend_def randomElement_def)

lemma select_second:
  "selectRandomTrend sampleLib 0 [sampleTrend, cricketTrend]
     [toLowerCase sampleLib (topic sampleTrend)] = Some cricketTrend"
  by (simp add: selectRandomTrend_def randomElement_def sampleTrend_def cricketTrend_def
      sampleLib_def js_def)

lemma generate_hi:
  "generatePostWithOpenRouter (Choice (Some quotedHi)) sampleTrend = Some hiPost"
  by (simp add: generatePostWithOpenRouter_def truncateToLimit_def stripQuotes_def trim_def
      isWhiteSpace_def isQuote_def js_def sampleTrend_def hiPost_def quotedHi_def)

lemma hi_rejected: "\<not> checkContentDiversity sampleLib 5000 (Inr [loggedHi]) (js ''hi'')"
  by (simp add: checkContentDiversity_def recentPosts_def loggedHi_def similarityThreshold_def
      sampleLib_def js_def)

lemma post_hi_succeeds: "fst (postTweetWithButton healthyPage (js ''hi''))"
  by (simp add: postTweetWithButton_after_compose(1) [OF compose_healthy] click_healthy)

lemma main_failedGenerationRun:
  "main failedGenerationRun = abortRun failedGenerationRun [Generate sampleTrend None] NoPostContent"
  by (rule main_generation_fails)
     (simp_all add: failedGenerationRun_def rejectedRun_def trends_sample select_first
        generatePostWithOpenRouter_def)

lemma main_rejectedRun:
  "main rejectedRun =
     submitWithRetry rejectedRun
       [Generate sampleTrend (Some hiPost), DiversityCheck (js ''hi'') False,
        Generate cricketTrend None] hiPost"
proof -
  have p: "post hiPost = js ''hi''" by (simp add: hiPost_def)
  have "main rejectedRun =
           submitWithRetry rejectedRun
             [Generate sampleTrend (Some hiPost), DiversityCheck (post hiPost) False,
              Generate cricketTrend (generatePostWithOpenRouter (responses rejectedRun 1) cricketTrend)]
             (case generatePostWithOpenRouter (responses rejectedRun 1) cricketTrend of
                Some r \<Rightarrow> r | None \<Rightarrow> hiPost)"
    by (rule main_regeneration_fails)
       (simp_all add: rejectedRun_def trends_sample select_first select_second generate_hi p
          hi_rejected)
  then show ?thesis
    by (simp add: p) (simp add: rejectedRun_def generatePostWithOpenRouter_def)
qed

lemma submit_rejectedRun:
  "submitWithRetry rejectedRun done hiPost =
     \<lparr>events = done @ [Submit hiPost True],
      written = logSuccessfulPost True 5000 hiPost 1 (js ''native_click_forced'') initial_store\<rparr>"
  by (simp add: submitWithRetry_def postTweetWithRetry_def maxRetries_config_def
      initial_retry_state_def retry_success rejectedRun_def hiPost_def post_hi_succeeds)


text \<open>
  C8. When the generation for the first selected topic returns \<open>null\<close>, \<open>main\<close> aborts: the
  events of the run are that one generation and the critical error, with no diversity check,
  no second generation and no post attempt, whatever the size of the topic pool. In every run,
  a generation after the first happens only behind a successful first generation whose post
  the diversity guard rejected.
\<close>

theorem main_generation_failure_aborts:
  "(setupSteps env = Inr () \<and>
    getTrendingTopicsWithContext (library env) (trendsPage env) \<noteq> [] \<and>
    selectRandomTrend (library env) (random env 0)
      (getTrendingTopicsWithContext (library env) (trendsPage env)) [] = Some selectedTrend \<and>
    generatePostWithOpenRouter (responses env 0) selectedTrend = None \<longrightarrow>
      events (main env) = [Generate selectedTrend None, CriticalError NoPostContent] \<and>
      contentLogs (written (main env)) = []) \<and>
   (\<forall>first rest t g. events (main env) = first # rest \<and> Generate t g \<in> set rest \<longrightarrow>
      (\<exists>sel pd. take 2 (events (main env)) =
         [Generate sel (Some pd), DiversityCheck (post pd) False]))"
proof (intro conjI impI allI)
  assume h: "setupSteps env = Inr () \<and>
    getTrendingTopicsWithContext (library env) (trendsPage env) \<noteq> [] \<and>
    selectRandomTrend (library env) (random env 0)
      (getTrendingTopicsWithContext (library env) (trendsPage env)) [] = Some selectedTrend \<and>
    generatePostWithOpenRouter (responses env 0) selectedTrend = None"
  then have m: "main env = abortRun env [Generate selectedTrend None] NoPostContent"
    by (intro main_generation_fails) simp_all
  show "events (main env) = [Generate selectedTrend None, CriticalError NoPostContent]"
    by (simp add: m events_abortRun)
  show "contentLogs (written (main env)) = []"
    by (simp add: m contentLogs_abortRun)
next
  fix first rest t g
  assume "events (main env) = first # rest \<and> Generate t g \<in> set rest"
  with main_events_shape [of env]
  show "\<exists>sel pd. take 2 (events (main env)) =
         [Generate sel (Some pd), DiversityCheck (post pd) False]"
    by auto
qed

theorem main_generation_failure_aborts_witness:
  "setupSteps failedGenerationRun = Inr () \<and>
   length (getTrendingTopicsWithContext (library failedGenerationRun)
             (trendsPage failedGenerationRun)) = 2 \<and>
   generatePostWithOpenRouter (responses failedGenerationRun 0) sampleTrend = None \<and>
   events (main failedGenerationRun) = [Generate sampleTrend None, CriticalError NoPostContent] \<and>
   contentLogs (written (main failedGenerationRun)) = [] \<and>
   events (main rejectedRun) =
     [Generate sampleTrend (Some hiPost), DiversityCheck (js ''hi'') False,
      Generate cricketTrend None, Submit hiPost True] \<and>
   post hiPost = js ''hi''"
  using main_generation_failure_aborts [of failedGenerationRun sampleTrend]
    main_generation_failure_aborts [of rejectedRun sampleTrend]
  by (simp add: main_failedGenerationRun main_rejectedRun submit_rejectedRun events_abortRun
      contentLogs_abortRun)
     (simp add: failedGenerationRun_def rejectedRun_def trends_sample
        generatePostWithOpenRouter_def hiPost_def)

text \<open>
  C9. When the diversity guard rejects the generated post, the run goes on to the retry
  orchestrator (given a draw of \<open>Math.random\<close> in \<open>[0, 1)\<close>); and when the one
  re-generation returns \<open>null\<close>, the post handed to the orchestrator is the rejected one,
  unchanged.
\<close>

theorem main_rejected_post_still_submitted:
  "setupSteps env = Inr () \<Longrightarrow>
   getTrendingTopicsWithContext (library env) (trendsPage env) \<noteq> [] \<Longrightarrow>
   selectRandomTrend (library env) (random env 0)
     (getTrendingTopicsWithContext (library env) (trendsPage env)) [] = Some selectedTrend \<Longrightarrow>
   generatePostWithOpenRouter (responses env 0) selectedTrend = Some pd \<Longrightarrow>
   \<not> checkContentDiversity (library env) (currentTime env) (historyQuery env) (post pd) \<Longrightarrow>
   0 \<le> random env 1 \<Longrightarrow> random env 1 < 1 \<Longrightarrow>
   (\<exists>g posted. last (events (main env)) = Submit g posted) \<and>
   (\<forall>newTrend.
      selectRandomTrend (library env) (random env 1)
        (getTrendingTopicsWithContext (library env) (trendsPage env))
        [toLowerCase (library env) (topic selectedTrend)] = Some newTrend \<and>
      generatePostWithOpenRouter (responses env 1) newTrend = None \<longrightarrow>
        events (main env) =
          [Generate selectedTrend (Some pd), DiversityCheck (post pd) False,
           Generate newTrend None,
           Submit pd
             (fst (postTweetWithRetry
                \<lparr>submit = (\<lambda>n. Returns (fst (postTweetWithButton (postPages env n) (post pd)))),
                 storeUp = databaseUp env, clock = currentTime env\<rparr>
                pd maxRetries_config))])"
proof (intro conjI allI impI)
  assume ready: "setupSteps env = Inr ()"
    and trends: "getTrendingTopicsWithContext (library env) (trendsPage env) \<noteq> []"
    and sel: "selectRandomTrend (library env) (random env 0)
       (getTrendingTopicsWithContext (library env) (trendsPage env)) [] = Some selectedTrend"
    and gen: "generatePostWithOpenRouter (responses env 0) selectedTrend = Some pd"
    and rejected: "\<not> checkContentDiversity (library env) (currentTime env) (historyQuery env)
       (post pd)"
    and lo: "0 \<le> random env 1" and hi: "random env 1 < 1"
  {
    from selectRandomTrend_defined [OF lo hi trends]
    obtain newTrend where reselected:
      "selectRandomTrend (library env) (random env 1)
         (getTrendingTopicsWithContext (library env) (trendsPage env))
         [toLowerCase (library env) (topic selectedTrend)] = Some newTrend"
      by blast
    from main_regeneration_fails [OF ready trends sel gen rejected reselected]
      events_submitWithRetry
    obtain earlier g posted where "events (main env) = earlier @ [Submit g posted]"
      by metis
    then show "\<exists>g posted. last (events (main env)) = Submit g posted"
      by simp
  }
  fix newTrend
  assume "selectRandomTrend (library env) (random env 1)
        (getTrendingTopicsWithContext (library env) (trendsPage env))
        [toLowerCase (library env) (topic selectedTrend)] = Some newTrend \<and>
      generatePostWithOpenRouter (responses env 1) newTrend = None"
  then have reselected: "selectRandomTrend (library env) (random env 1)
        (getTrendingTopicsWithContext (library env) (trendsPage env))
        [toLowerCase (library env) (topic selectedTrend)] = Some newTrend"
    and none: "generatePostWithOpenRouter (responses env 1) newTrend = None"
    by simp_all
  show "events (main env) =
          [Generate selectedTrend (Some pd), DiversityCheck (post pd) False,
           Generate newTrend None,
           Submit pd
             (fst (postTweetWithRetry
                \<lparr>submit = (\<lambda>n. Returns (fst (postTweetWithButton (postPages env n) (post pd)))),
                 storeUp = databaseUp env, clock = currentTime env\<rparr>
                pd maxRetries_config))]"
  proof -
    have "main env =
            submitWithRetry env
              [Generate selectedTrend (Some pd), DiversityCheck (post pd) False,
               Generate newTrend None] pd"
      using main_regeneration_fails [OF ready trends sel gen rejected reselected]
      by (simp only: none option.case)
    then show ?thesis by (simp add: events_submitWithRetry_posted)
  qed
qed

theorem main_rejected_post_still_submitted_witness:
  "setupSteps rejectedRun = Inr () \<and>
   generatePostWithOpenRouter (responses rejectedRun 0) sampleTrend = Some hiPost \<and>
   \<not> checkContentDiversity (library rejectedRun) (currentTime rejectedRun)
        (historyQuery rejectedRun) (post hiPost) \<and>
   generatePostWithOpenRouter (responses rejectedRun 1) cricketTrend = None \<and>
   last (events (main rejectedRun)) = Submit hiPost True \<and>
   map generatedPost (contentLogs (written (main rejectedRun))) = [js ''hi'']"
proof -
  have ready: "setupSteps rejectedRun = Inr ()" by (simp add: rejectedRun_def)
  have trends: "getTrendingTopicsWithContext (library rejectedRun) (trendsPage rejectedRun) \<noteq> []"
    by (simp add: rejectedRun_def trends_sample)
  have sel: "selectRandomTrend (library rejectedRun) (random rejectedRun 0)
       (getTrendingTopicsWithContext (library rejectedRun) (trendsPage rejectedRun)) [] =
       Some sampleTrend"
    by (simp add: rejectedRun_def trends_sample select_first)
  have gen: "generatePostWithOpenRouter (responses rejectedRun 0) sampleTrend = Some hiPost"
    by (simp add: rejectedRun_def generate_hi)
  have rejected: "\<not> checkContentDiversity (library rejectedRun) (currentTime rejectedRun)
        (historyQuery rejectedRun) (post hiPost)"
    using hi_rejected by (simp add: rejectedRun_def hiPost_def)
  have none: "generatePostWithOpenRouter (responses rejectedRun 1) cricketTrend = None"
    by (simp add: rejectedRun_def generatePostWithOpenRouter_def)
  have lo: "0 \<le> random rejectedRun 1" and hi: "random rejectedRun 1 < 1"
    by (simp_all add: rejectedRun_def)
  from main_rejected_post_still_submitted [OF ready trends sel gen rejected lo hi]
  have "\<exists>g posted. last (events (main rejectedRun)) = Submit g posted"
    by blast
  then have "last (events (main rejectedRun)) = Submit hiPost True"
    by (simp add: main_rejectedRun submit_rejectedRun)
  moreover have "map generatedPost (contentLogs (written (main rejectedRun))) = [js ''hi'']"
    by (simp add: main_rejectedRun submit_rejectedRun logSuccessfulPost_def initial_store_def)
       (simp add: hiPost_def)
  ultimately show ?thesis
    using ready gen rejected none by simp
qed

end
